theory Spec2Isabelle
  imports Main "HOL-Library.Word" "HOL-Library.Signed_Division"
begin

unbundle bit_operations_syntax

section \<open>The JOS kernel monitor (kern/monitor.c)\<close>

text \<open>
  The monitor is C code of a 32-bit x86 kernel: \<open>int\<close>, \<open>long\<close>, \<open>uint32_t\<close>,
  \<open>pte_t\<close> and pointers are all 32 bits wide. They are modelled as \<open>32 word\<close>;
  \<open>+\<close> on words wraps as unsigned C arithmetic does, \<open><\<close> is the unsigned and
  \<open><s\<close> the signed comparison. Signed additions of the source whose result may
  leave the range of the type are undefined behaviour in C and are a fault of the model.
\<close>

type_synonym u8 = "8 word"
type_synonym u32 = "32 word"
type_synonym long = "32 word"
type_synonym cint = "32 word"

subsection \<open>Constants and macros of the headers\<close>

text \<open>
  Modelled from the spec: \<open>PGSIZE\<close>, \<open>PTE_P\<close>, \<open>PTE_W\<close>, \<open>PTE_U\<close>, \<open>PTE_ADDR\<close>
  (inc/mmu.h) and \<open>KERNBASE\<close> (inc/memlayout.h) are not among the sources. The spec
  names them as the page size, the present, writable and user-accessible permission
  flags of a page-table entry, the physical frame address held by an entry, and the
  kernel's fixed physical-to-virtual offset. They get the values of the 32-bit x86
  page-table format and of the JOS memory layout.
\<close>

definition PGSIZE :: u32 where "PGSIZE = 4096"
definition PTE_P :: u32 where "PTE_P = 0x001"
definition PTE_W :: u32 where "PTE_W = 0x002"
definition PTE_U :: u32 where "PTE_U = 0x004"
definition KERNBASE :: u32 where "KERNBASE = 0xF0000000"

definition PTE_ADDR :: "u32 \<Rightarrow> u32" where
  "PTE_ADDR pte = pte AND NOT 0xFFF"

definition PGNUM :: "u32 \<Rightarrow> nat" where
  "PGNUM la = unat (drop_bit 12 la)"

text \<open>
  Modelled from the spec: \<open>ROUNDDOWN\<close> and \<open>ROUNDUP\<close> (inc/types.h, not among
  the sources) round down and up to a multiple of the page size. The macros compute in
  \<open>uint32_t\<close> and cast the result back to the type of the argument, here always a
  32-bit type: \<open>__a - __a % n\<close> and \<open>ROUNDDOWN(a + n - 1, n)\<close>.
\<close>

definition ROUNDDOWN :: "u32 \<Rightarrow> u32 \<Rightarrow> u32" where
  "ROUNDDOWN a n = a - a mod n"

definition ROUNDUP :: "u32 \<Rightarrow> u32 \<Rightarrow> u32" where
  "ROUNDUP a n = ROUNDDOWN (a + n - 1) n"

definition MAXARGS :: nat where "MAXARGS = 16"

definition WHITESPACE :: string where
  "WHITESPACE = [CHR 0x09, CHR 0x0D, CHR 0x0A, CHR '' '']"

subsection \<open>Kernel state\<close>

text \<open>
  \<open>struct Trapframe\<close> (inc/trap.h) is the saved context; the monitor reads and
  writes only \<open>tf_eflags\<close>, the other saved registers are kept as a list of words.
\<close>

record Trapframe =
  tf_eflags :: u32
  tf_regs :: "u32 list"

record Env =
  env_tf :: Trapframe

text \<open>An argument of a \<open>cprintf\<close> call: a string (\<open>%s\<close>) or a 32-bit value.\<close>

datatype carg = Str string | Num u32

text \<open>
  The mutable state the monitor touches: the console (each \<open>cprintf\<close> call with its
  format string and arguments, in order), the byte-addressed memory, the global
  \<open>COLOR_\<close> (field \<open>COLOR\<close>), the current environment \<open>curenv\<close> (a pointer, \<open>None\<close> when null) and
  the frame pointer register read by \<open>read_ebp\<close>.
\<close>

record kstate =
  console :: "(string \<times> carg list) list"
  mem :: "u32 \<Rightarrow> u8"
  COLOR :: cint
  curenv :: "Env option"
  ebp_reg :: u32

text \<open>Debug information of an instruction address, \<open>struct Eipdebuginfo\<close>.\<close>

record Eipdebuginfo =
  eip_file :: string
  eip_line :: cint
  eip_fn_name :: string
  eip_fn_namelen :: cint
  eip_fn_addr :: u32

text \<open>
  Modelled from the spec: the collaborators of the monitor that are not among the
  sources, taken as parameters. \<open>pgdir_walk\<close> is the page-table walk primitive in
  non-creating mode on \<open>kern_pgdir\<close>: from the memory and an address to an optional
  reference to the entry (\<open>None\<close> is the null pointer). \<open>debuginfo_eip\<close> is the
  debug-info resolver, \<open>print_trapframe\<close> gives the console output of the trap
  frame dump, \<open>npages\<close> is the number of physical pages that \<open>KADDR\<close> checks
  against, and the remaining fields are the linker symbols.
\<close>

record kern =
  pgdir_walk :: "(u32 \<Rightarrow> u8) \<Rightarrow> u32 \<Rightarrow> u32 option"
  debuginfo_eip :: "u32 \<Rightarrow> Eipdebuginfo"
  print_trapframe :: "Trapframe \<Rightarrow> (string \<times> carg list) list"
  npages :: nat
  sym_start :: u32
  sym_entry :: u32
  sym_etext :: u32
  sym_edata :: u32
  sym_end :: u32

datatype fault = NullDeref | Uninitialized | SignedOverflow | KaddrPanic

text \<open>
  What a call of the monitor's code ends in: it returns a status, it enters
  \<open>env_run\<close> (which does not return), it faults, or it runs forever.
\<close>

datatype result =
    Returns int kstate
  | EnvRun kstate
  | Fault fault kstate
  | Diverges

definition cprintf :: "string \<Rightarrow> carg list \<Rightarrow> kstate \<Rightarrow> kstate" where
  "cprintf fmt args s = s\<lparr>console := console s @ [(fmt, args)]\<rparr>"

subsection \<open>Memory\<close>

text \<open>A 4-byte access of the little-endian x86: \<open>*p\<close> for an \<open>int *\<close> or \<open>pte_t *\<close>.\<close>

definition read32 :: "(u32 \<Rightarrow> u8) \<Rightarrow> u32 \<Rightarrow> u32" where
  "read32 m a =
     ucast (m a) OR push_bit 8 (ucast (m (a + 1)))
       OR push_bit 16 (ucast (m (a + 2))) OR push_bit 24 (ucast (m (a + 3)))"

definition write32 :: "(u32 \<Rightarrow> u8) \<Rightarrow> u32 \<Rightarrow> u32 \<Rightarrow> (u32 \<Rightarrow> u8)" where
  "write32 m a v =
     m(a := ucast v, a + 1 := ucast (drop_bit 8 v),
       a + 2 := ucast (drop_bit 16 v), a + 3 := ucast (drop_bit 24 v))"

text \<open>
  Modelled from the spec: \<open>KADDR\<close> (kern/pmap.h, not among the sources) maps a
  physical address through the fixed offset \<open>KERNBASE\<close>. The macro of JOS panics
  when the page number of the address is not below \<open>npages\<close>; the panic is kept,
  as \<open>None\<close>.
\<close>

definition KADDR :: "kern \<Rightarrow> u32 \<Rightarrow> u32 option" where
  "KADDR K pa = (if npages K \<le> PGNUM pa then None else Some (pa + KERNBASE))"

subsection \<open>The integer-literal parser\<close>

text \<open>
  Modelled from the spec: \<open>strtol\<close> (lib/string.c, not among the sources) is the
  generic integer-literal parser, always called with base 0 and no end pointer:
  leading blanks, an optional sign, the prefix \<open>0x\<close> for hexadecimal, a leading
  \<open>0\<close> for octal, decimal otherwise, then digits up to the first character that is
  not a digit of the base. The value is accumulated in a \<open>long\<close>.
\<close>

definition digit_of :: "char \<Rightarrow> nat option" where
  "digit_of c =
     (let n = of_char c :: nat in
      if 48 \<le> n \<and> n \<le> 57 then Some (n - 48)
      else if 97 \<le> n \<and> n \<le> 122 then Some (n - 97 + 10)
      else if 65 \<le> n \<and> n \<le> 90 then Some (n - 65 + 10)
      else None)"

fun strtol_digits :: "nat \<Rightarrow> long \<Rightarrow> string \<Rightarrow> long" where
  "strtol_digits base val [] = val"
| "strtol_digits base val (c # cs) =
     (case digit_of c of
        None \<Rightarrow> val
      | Some dig \<Rightarrow>
          if base \<le> dig then val
          else strtol_digits base (val * of_nat base + of_nat dig) cs)"

fun strtol_sign :: "string \<Rightarrow> bool \<times> string" where
  "strtol_sign [] = (False, [])"
| "strtol_sign (c # cs) =
     (if c = CHR ''+'' then (False, cs)
      else if c = CHR ''-'' then (True, cs)
      else (False, c # cs))"

fun strtol_base :: "string \<Rightarrow> nat \<times> string" where
  "strtol_base (a # b # cs) =
     (if a = CHR ''0'' \<and> b = CHR ''x'' then (16, cs)
      else if a = CHR ''0'' then (8, b # cs)
      else (10, a # b # cs))"
| "strtol_base [a] = (if a = CHR ''0'' then (8, []) else (10, [a]))"
| "strtol_base [] = (10, [])"

definition strtol :: "string \<Rightarrow> long" where
  "strtol s =
     (let s1 = dropWhile (\<lambda>c. c = CHR '' '' \<or> c = CHR 0x09) s;
          (neg, s2) = strtol_sign s1;
          (base, s3) = strtol_base s2;
          val = strtol_digits base 0 s3
      in if neg then - val else val)"

subsection \<open>Commands\<close>

text \<open>
  A handler gets \<open>argv\<close> as the list of the arguments; \<open>argc\<close> is its length, as
  \<open>runcmd\<close> passes them. The trap frame pointer is \<open>None\<close> when null.
\<close>

definition argc_of :: "string list \<Rightarrow> int" where
  "argc_of argv = int (length argv)"

definition mon_setcolor :: "string list \<Rightarrow> Trapframe option \<Rightarrow> kstate \<Rightarrow> result" where
  "mon_setcolor argv tf s =
     (if argc_of argv \<noteq> 2 then
        Returns 0 (cprintf ''Usage: setcolor [int]\<newline>'' [] s)
      else
        let s1 = s\<lparr>COLOR := strtol (argv ! 1)\<rparr>;
            s2 = s1\<lparr>COLOR := COLOR s1 AND NOT 0x11\<rparr>
        in Returns 0 (cprintf ''Color set to %x\<newline>'' [Num (COLOR s2)] s2))"

text \<open>
  The name and description columns of the static table \<open>commands\<close>, which
  \<open>mon_help\<close> prints; the table itself, with the handlers, follows the handlers.
\<close>

definition command_info :: "(string \<times> string) list" where
  "command_info =
     [(''help'', ''Display this list of commands''),
      (''kerninfo'', ''Display information about the kernel''),
      (''backtrace'', ''Display information of the stack''),
      (''setcolor'', ''Set display color of the kernel''),
      (''showmappings'', ''Show mappings between two addresses''),
      (''setperm'', ''Set the permission bits of an addresses''),
      (''showmem'', ''Show the contents of a range of given memory''),
      (''continue'', ''Continue execution the environment in tf''),
      (''c'', ''Continue execution the environment in tf''),
      (''stepi'', ''Execution one instruction of the environment in tf''),
      (''si'', ''Execution one instruction of the environment in tf'')]"

definition mon_help :: "string list \<Rightarrow> Trapframe option \<Rightarrow> kstate \<Rightarrow> result" where
  "mon_help argv tf s =
     Returns 0
       (foldl (\<lambda>s' (n, d). cprintf ''%s - %s\<newline>'' [Str n, Str d] s') s command_info)"

text \<open>The signed division \<open>a / b\<close> of two \<open>int\<close>, truncating towards zero.\<close>

definition sdiv_int :: "cint \<Rightarrow> cint \<Rightarrow> cint" where
  "sdiv_int a b = word_of_int (sint a sdiv sint b)"

definition mon_kerninfo :: "kern \<Rightarrow> string list \<Rightarrow> Trapframe option \<Rightarrow> kstate \<Rightarrow> result" where
  "mon_kerninfo K argv tf s =
     (let s1 = cprintf ''Special kernel symbols:\<newline>'' [] s;
          s2 = cprintf ''  _start                  %08x (phys)\<newline>'' [Num (sym_start K)] s1;
          s3 = cprintf ''  entry  %08x (virt)  %08x (phys)\<newline>''
                 [Num (sym_entry K), Num (sym_entry K - KERNBASE)] s2;
          s4 = cprintf ''  etext  %08x (virt)  %08x (phys)\<newline>''
                 [Num (sym_etext K), Num (sym_etext K - KERNBASE)] s3;
          s5 = cprintf ''  edata  %08x (virt)  %08x (phys)\<newline>''
                 [Num (sym_edata K), Num (sym_edata K - KERNBASE)] s4;
          s6 = cprintf ''  end    %08x (virt)  %08x (phys)\<newline>''
                 [Num (sym_end K), Num (sym_end K - KERNBASE)] s5;
          s7 = cprintf ''Kernel executable memory footprint: %dKB\<newline>''
                 [Num (sdiv_int (ROUNDUP (sym_end K - sym_entry K) 1024) 1024)] s6
      in Returns 0 s7)"

text \<open>
  The frame-pointer walk of \<open>mon_backtrace\<close>. The loop ends only at a zero frame
  pointer, so on a cyclic chain it does not return: the loop is a partial function,
  \<open>None\<close> when it runs forever.
\<close>

partial_function (option) backtrace_loop :: "kern \<Rightarrow> u32 \<Rightarrow> kstate \<Rightarrow> result option" where
  "backtrace_loop K ebp s =
     (if ebp \<noteq> 0 then
        backtrace_loop K (read32 (mem s) ebp)
          (let eip = read32 (mem s) (ebp + 4);
               s1 = cprintf ''  ebp %08x  eip %08x  args'' [Num ebp, Num eip] s;
               s2 = foldl (\<lambda>s' i. cprintf '' %08x'' [Num (read32 (mem s) (ebp + 8 + 4 * of_nat i))] s')
                      s1 [0..<5];
               s3 = cprintf ''\<newline>'' [] s2;
               eip_info = debuginfo_eip K eip
           in cprintf ''         %s:%d: %.*s+%d\<newline>''
                [Str (eip_file eip_info), Num (eip_line eip_info),
                 Num (eip_fn_namelen eip_info), Str (eip_fn_name eip_info),
                 Num (eip - eip_fn_addr eip_info)] s3)
      else Some (Returns 0 s))"

declare backtrace_loop.simps [code]

definition mon_backtrace :: "kern \<Rightarrow> string list \<Rightarrow> Trapframe option \<Rightarrow> kstate \<Rightarrow> result" where
  "mon_backtrace K argv tf s =
     (let s1 = cprintf ''Stack backtrace:\<newline>'' [] s in
      case backtrace_loop K (ebp_reg s1) s1 of
        None \<Rightarrow> Diverges
      | Some r \<Rightarrow> r)"

subsection \<open>Page-table commands\<close>

text \<open>
  \<open>a + b\<close> on two signed 32-bit operands: \<open>None\<close> when the sum is not
  representable, which is undefined behaviour in C.
\<close>

definition add_long :: "long \<Rightarrow> long \<Rightarrow> long option" where
  "add_long a b =
     (if - (2 ^ 31) \<le> sint a + sint b \<and> sint a + sint b < 2 ^ 31 then Some (a + b) else None)"

text \<open>The cast \<open>(bool) x\<close>, printed as an integer.\<close>

definition to_bool :: "u32 \<Rightarrow> u32" where
  "to_bool x = (if x = 0 then 0 else 1)"

definition print_perm :: "u32 \<Rightarrow> kstate \<Rightarrow> kstate" where
  "print_perm pte s =
     cprintf ''PTE_P: %x, PTE_W: %x, PTE_U: %x\<newline>''
       [Num (to_bool (pte AND PTE_P)), Num (to_bool (pte AND PTE_W)),
        Num (to_bool (pte AND PTE_U))] s"

text \<open>
  The normalisation of the address arguments in \<open>mon_showmappings\<close>, for \<open>argc\<close>
  2 or 3. The comparisons with the constant \<open>0xffffffff\<close>, an \<open>unsigned int\<close>,
  are unsigned; \<open>end < begin\<close> compares two \<open>long\<close>.
\<close>

definition showmappings_range :: "string list \<Rightarrow> (long \<times> long) option" where
  "showmappings_range argv =
     (let begin0 = strtol (argv ! 1);
          end0 = (if argc_of argv = 3 then strtol (argv ! 2) else begin0);
          begin1 = (if 0xffffffff < begin0 then 0xffffffff else begin0);
          end1 = (if 0xffffffff < end0 then 0xffffffff else end0);
          (begin2, end2) = (if end1 <s begin1 then (end1, begin1) else (begin1, end1));
          begin3 = ROUNDDOWN begin2 PGSIZE;
          end3 = ROUNDUP end2 PGSIZE
      in if begin3 = end3
         then (case add_long end3 PGSIZE of None \<Rightarrow> None | Some end4 \<Rightarrow> Some (begin3, end4))
         else Some (begin3, end3))"

function showmappings_loop :: "kern \<Rightarrow> long \<Rightarrow> long \<Rightarrow> kstate \<Rightarrow> result" where
  "showmappings_loop K begin' end' s =
     (if begin' <s end' then
        (case add_long begin' PGSIZE of
           None \<Rightarrow> Fault SignedOverflow s
         | Some next \<Rightarrow>
             let s1 = cprintf ''%08x---%08x: '' [Num begin', Num next] s in
             (case pgdir_walk K (mem s1) begin' of
                None \<Rightarrow> showmappings_loop K next end' (cprintf ''No mapping\<newline>'' [] s1)
              | Some p \<Rightarrow>
                  let s2 = cprintf ''page %08x '' [Num (PTE_ADDR (read32 (mem s1) p))] s1;
                      s3 = print_perm (read32 (mem s2) p) s2
                  in showmappings_loop K next end' s3))
      else Returns 0 s)"
  by pat_completeness auto
termination
  by (relation "measure (\<lambda>(K, b, e, s). nat (sint e - sint b))")
     (auto simp: add_long_def PGSIZE_def word_sless_alt sint_word_ariths
        signed_take_bit_int_eq_self split: if_splits)

definition mon_showmappings :: "kern \<Rightarrow> string list \<Rightarrow> Trapframe option \<Rightarrow> kstate \<Rightarrow> result" where
  "mon_showmappings K argv tf s =
     (if argc_of argv \<noteq> 2 \<and> argc_of argv \<noteq> 3 then
        Returns 0
          (cprintf ''Usage: showmappings ADDR1 ADDR2\<newline>       showmappings ADDR\<newline>'' [] s)
      else
        case showmappings_range argv of
          None \<Rightarrow> Fault SignedOverflow s
        | Some (begin', end') \<Rightarrow> showmappings_loop K begin' end' s)"

text \<open>The character \<open>a[0]\<close> of a C string: the terminator when the string is empty.\<close>

definition first_char :: "string \<Rightarrow> char" where
  "first_char a = (case a of [] \<Rightarrow> CHR 0x00 | c # _ \<Rightarrow> c)"

text \<open>
  The three tests on the permission letter in \<open>mon_setperm\<close>; \<open>perm\<close> is declared
  without a value, and stays so (\<open>None\<close>) for any other letter.
\<close>

definition setperm_letter :: "char \<Rightarrow> cint option" where
  "setperm_letter c =
     (let perm0 = None;
          perm1 = (if c = CHR ''P'' then Some PTE_P else perm0);
          perm2 = (if c = CHR ''W'' then Some PTE_W else perm1);
          perm3 = (if c = CHR ''U'' then Some PTE_U else perm2)
      in perm3)"

text \<open>The statements \<open>if (strcmp(argv[2], "clear") == 0) ...\<close> and the one for \<open>"set"\<close>.\<close>

definition setperm_clear :: "string list \<Rightarrow> cint option \<Rightarrow> u32 \<Rightarrow> kstate \<Rightarrow> (fault \<times> kstate) + kstate" where
  "setperm_clear argv perm p s =
     (if argv ! 2 = ''clear'' then
        let s1 = cprintf ''...Clear permission bits...\<newline>'' [] s in
        (case perm of
           None \<Rightarrow> Inl (Uninitialized, s1)
         | Some pm \<Rightarrow> Inr (s1\<lparr>mem := write32 (mem s1) p (read32 (mem s1) p AND NOT pm)\<rparr>))
      else Inr s)"

definition setperm_set :: "string list \<Rightarrow> cint option \<Rightarrow> u32 \<Rightarrow> kstate \<Rightarrow> (fault \<times> kstate) + kstate" where
  "setperm_set argv perm p s =
     (if argv ! 2 = ''set'' then
        let s1 = cprintf ''...Set permission bits...\<newline>'' [] s in
        (case perm of
           None \<Rightarrow> Inl (Uninitialized, s1)
         | Some pm \<Rightarrow> Inr (s1\<lparr>mem := write32 (mem s1) p (read32 (mem s1) p OR pm)\<rparr>))
      else Inr s)"

definition setperm_after :: "u32 \<Rightarrow> kstate \<Rightarrow> result" where
  "setperm_after p s =
     (let s1 = cprintf ''After: '' [] s in Returns 0 (print_perm (read32 (mem s1) p) s1))"

definition mon_setperm :: "kern \<Rightarrow> string list \<Rightarrow> Trapframe option \<Rightarrow> kstate \<Rightarrow> result" where
  "mon_setperm K argv tf s =
     (if argc_of argv \<noteq> 4 then
        Returns 0
          (cprintf
             ''Usage: setperm ADDR [clear|set] [P|W|U]\<newline>       setperm ADDR [change] perm\<newline>''
             [] s)
      else
        let addr = strtol (argv ! 1);
            pp = pgdir_walk K (mem s) addr;
            s1 = cprintf ''Before: '' [] s
        in case pp of
             None \<Rightarrow> Fault NullDeref s1
           | Some p \<Rightarrow>
               let s2 = print_perm (read32 (mem s1) p) s1 in
               if argv ! 2 = ''change'' then
                 let s3 = cprintf ''...Change permission bits...\<newline>'' [] s2;
                     perm = strtol (argv ! 3);
                     s4 = s3\<lparr>mem := write32 (mem s3) p (read32 (mem s3) p OR perm)\<rparr>
                 in setperm_after p s4
               else
                 let perm = setperm_letter (first_char (argv ! 3)) in
                 (case setperm_clear argv perm p s2 of
                    Inl (f, sf) \<Rightarrow> Fault f sf
                  | Inr s3 \<Rightarrow>
                      (case setperm_set argv perm p s3 of
                         Inl (f, sf) \<Rightarrow> Fault f sf
                       | Inr s4 \<Rightarrow> setperm_after p s4)))"

subsection \<open>Memory dump\<close>

function showmem_loop :: "string \<Rightarrow> long \<Rightarrow> long \<Rightarrow> cint \<Rightarrow> cint \<Rightarrow> kstate \<Rightarrow> result" where
  "showmem_loop sel addr vaddr n i s =
     (if i <s n then
        (case (add_long addr i, add_long vaddr i) of
           (Some a, Some va) \<Rightarrow>
             let s1 = cprintf ''%s Memory at %08x is %08x\<newline>''
                        [Str sel, Num a, Num (read32 (mem s) va)] s
             in (case add_long i 4 of
                   None \<Rightarrow> Fault SignedOverflow s1
                 | Some i' \<Rightarrow> showmem_loop sel addr vaddr n i' s1)
         | _ \<Rightarrow> Fault SignedOverflow s)
      else Returns 0 s)"
  by pat_completeness auto
termination
  by (relation "measure (\<lambda>(sel, addr, vaddr, n, i, s). nat (sint n - sint i))")
     (auto simp: add_long_def word_sless_alt sint_word_ariths signed_take_bit_int_eq_self
        split: if_splits)

definition mon_showmem :: "kern \<Rightarrow> string list \<Rightarrow> Trapframe option \<Rightarrow> kstate \<Rightarrow> result" where
  "mon_showmem K argv tf s =
     (if argc_of argv \<noteq> 4 then
        Returns 0 (cprintf ''Usage: showmem [Virtual|Physical] ADDR num\<newline>'' [] s)
      else
        let addr = strtol (argv ! 2);
            vaddr = (if first_char (argv ! 1) = CHR ''V'' then Some addr
                     else KADDR K (PTE_ADDR addr))
        in case vaddr of
             None \<Rightarrow> Fault KaddrPanic s
           | Some va \<Rightarrow> showmem_loop (argv ! 1) addr va (strtol (argv ! 3)) 0 s)"

subsection \<open>Execution control\<close>

definition mon_continue :: "string list \<Rightarrow> Trapframe option \<Rightarrow> kstate \<Rightarrow> result" where
  "mon_continue argv tf s =
     (if argc_of argv \<noteq> 1 then
        Returns 0 (cprintf ''Usage: c\<newline>       continue\<newline>'' [] s)
      else
        case tf of
          None \<Rightarrow> Returns 0 (cprintf ''Not in backtrace\<newline>'' [] s)
        | Some t \<Rightarrow>
            (case curenv s of
               None \<Rightarrow> Fault NullDeref s
             | Some e \<Rightarrow>
                 let e1 = e\<lparr>env_tf := t\<rparr>;
                     e2 = e1\<lparr>env_tf := (env_tf e1)\<lparr>tf_eflags := tf_eflags (env_tf e1) AND NOT 0x100\<rparr>\<rparr>
                 in EnvRun (s\<lparr>curenv := Some e2\<rparr>)))"

definition mon_stepi :: "string list \<Rightarrow> Trapframe option \<Rightarrow> kstate \<Rightarrow> result" where
  "mon_stepi argv tf s =
     (if argc_of argv \<noteq> 1 then
        Returns 0 (cprintf ''Usage: si\<newline>       stepi\<newline>'' [] s)
      else
        case tf of
          None \<Rightarrow> Returns 0 (cprintf ''Not in backtrace\<newline>'' [] s)
        | Some t \<Rightarrow>
            (case curenv s of
               None \<Rightarrow> Fault NullDeref s
             | Some e \<Rightarrow>
                 let e1 = e\<lparr>env_tf := t\<rparr>;
                     e2 = e1\<lparr>env_tf := (env_tf e1)\<lparr>tf_eflags := tf_eflags (env_tf e1) OR 0x100\<rparr>\<rparr>
                 in EnvRun (s\<lparr>curenv := Some e2\<rparr>)))"

subsection \<open>The command table\<close>

record Command =
  name :: string
  desc :: string
  func :: "string list \<Rightarrow> Trapframe option \<Rightarrow> kstate \<Rightarrow> result"

definition commands :: "kern \<Rightarrow> Command list" where
  "commands K =
     [\<lparr>name = ''help'', desc = ''Display this list of commands'', func = mon_help\<rparr>,
      \<lparr>name = ''kerninfo'', desc = ''Display information about the kernel'',
        func = mon_kerninfo K\<rparr>,
      \<lparr>name = ''backtrace'', desc = ''Display information of the stack'',
        func = mon_backtrace K\<rparr>,
      \<lparr>name = ''setcolor'', desc = ''Set display color of the kernel'', func = mon_setcolor\<rparr>,
      \<lparr>name = ''showmappings'', desc = ''Show mappings between two addresses'',
        func = mon_showmappings K\<rparr>,
      \<lparr>name = ''setperm'', desc = ''Set the permission bits of an addresses'',
        func = mon_setperm K\<rparr>,
      \<lparr>name = ''showmem'', desc = ''Show the contents of a range of given memory'',
        func = mon_showmem K\<rparr>,
      \<lparr>name = ''continue'', desc = ''Continue execution the environment in tf'',
        func = mon_continue\<rparr>,
      \<lparr>name = ''c'', desc = ''Continue execution the environment in tf'', func = mon_continue\<rparr>,
      \<lparr>name = ''stepi'', desc = ''Execution one instruction of the environment in tf'',
        func = mon_stepi\<rparr>,
      \<lparr>name = ''si'', desc = ''Execution one instruction of the environment in tf'',
        func = mon_stepi\<rparr>]"

subsection \<open>The command interpreter\<close>

text \<open>
  \<open>strchr(WHITESPACE, c)\<close> is non-null for the four characters and for the
  terminator; the two inner loops of \<open>runcmd\<close> test \<open>*buf\<close> first.
\<close>

definition strchr_ws :: "char \<Rightarrow> bool" where
  "strchr_ws c \<longleftrightarrow> c \<in> set WHITESPACE \<or> c = CHR 0x00"

definition gobble :: "char \<Rightarrow> bool" where
  "gobble c \<longleftrightarrow> c \<noteq> CHR 0x00 \<and> strchr_ws c"

definition in_arg :: "char \<Rightarrow> bool" where
  "in_arg c \<longleftrightarrow> c \<noteq> CHR 0x00 \<and> \<not> strchr_ws c"

text \<open>
  The parse loop of \<open>runcmd\<close> on the line buffer: the characters up to the end of
  the list or the first terminator are the C string. The loop zeroes the whitespace
  it skips, so that each \<open>argv[i]\<close> is the run of argument characters it points to.
  \<open>None\<close> is the return after "Too many arguments".
\<close>

function parse_args :: "string \<Rightarrow> string list \<Rightarrow> string list option" where
  "parse_args buf argv =
     (let buf1 = dropWhile gobble buf in
      if first_char buf1 = CHR 0x00 then Some argv
      else if length argv = MAXARGS - 1 then None
      else parse_args (dropWhile in_arg buf1) (argv @ [takeWhile in_arg buf1]))"
  by pat_completeness auto
termination
proof (relation "measure (\<lambda>(buf, argv). length buf)", goal_cases)
  case 1
  show ?case by simp
next
  case (2 buf argv buf1)
  then obtain c cs where b: "dropWhile gobble buf = c # cs" and c: "c \<noteq> CHR 0x00"
    by (cases "dropWhile gobble buf") (auto simp: first_char_def)
  from b have "\<not> gobble c"
    by (metis hd_dropWhile list.sel(1) list.distinct(1))
  with c have "in_arg c" by (simp add: gobble_def in_arg_def)
  then have "length (dropWhile in_arg (c # cs)) \<le> length cs"
    by (simp add: length_dropWhile_le)
  moreover have "length (c # cs) \<le> length buf"
    using b length_dropWhile_le [of gobble buf] by simp
  ultimately show ?case using 2 b by simp
qed

text \<open>The lookup loop over the table.\<close>

fun lookup_cmd :: "Command list \<Rightarrow> string \<Rightarrow> Command option" where
  "lookup_cmd [] a = None"
| "lookup_cmd (c # cs) a = (if a = name c then Some c else lookup_cmd cs a)"

definition runcmd :: "Command list \<Rightarrow> string \<Rightarrow> Trapframe option \<Rightarrow> kstate \<Rightarrow> result" where
  "runcmd cmds buf tf s =
     (case parse_args buf [] of
        None \<Rightarrow> Returns 0 (cprintf ''Too many arguments (max %d)\<newline>'' [Num (of_nat MAXARGS)] s)
      | Some argv \<Rightarrow>
          if argc_of argv = 0 then Returns 0 s
          else
            (case lookup_cmd cmds (argv ! 0) of
               Some c \<Rightarrow> func c argv tf s
             | None \<Rightarrow> Returns 0 (cprintf ''Unknown command '%s'\<newline>'' [Str (argv ! 0)] s)))"

text \<open>
  The loop of \<open>monitor\<close>, on the results of the successive \<open>readline\<close> calls
  (\<open>None\<close> is a null result). With no further input the monitor is blocked in
  \<open>readline\<close>.
\<close>

datatype mresult =
    Exits kstate
  | Blocked kstate
  | MEnvRun kstate
  | MFault fault kstate
  | MDiverges

fun monitor_loop :: "kern \<Rightarrow> Trapframe option \<Rightarrow> string option list \<Rightarrow> kstate \<Rightarrow> mresult" where
  "monitor_loop K tf [] s = Blocked s"
| "monitor_loop K tf (None # lines) s = monitor_loop K tf lines s"
| "monitor_loop K tf (Some buf # lines) s =
     (case runcmd (commands K) buf tf s of
        Returns r s' \<Rightarrow> if r < 0 then Exits s' else monitor_loop K tf lines s'
      | EnvRun s' \<Rightarrow> MEnvRun s'
      | Fault f s' \<Rightarrow> MFault f s'
      | Diverges \<Rightarrow> MDiverges)"

definition monitor :: "kern \<Rightarrow> Trapframe option \<Rightarrow> string option list \<Rightarrow> kstate \<Rightarrow> mresult" where
  "monitor K tf lines s =
     (let s1 = cprintf ''Welcome to the JOS kernel monitor!\<newline>'' [] s;
          s2 = cprintf ''Type 'help' for a list of commands.\<newline>'' [] s1;
          s3 = (case tf of
                  None \<Rightarrow> s2
                | Some t \<Rightarrow> s2\<lparr>console := console s2 @ print_trapframe K t\<rparr>)
      in monitor_loop K tf lines s3)"

subsection \<open>The tokens of a line\<close>

text \<open>
  Following the words of the spec for the tokenizer: the line is scanned from left to
  right up to its terminator, runs of whitespace (tab, CR, LF, space) are skipped, and
  each run of other characters is one argument. \<open>split_ws cur buf\<close> carries the
  argument read so far.
\<close>

fun split_ws :: "string \<Rightarrow> string \<Rightarrow> string list" where
  "split_ws cur [] = (if cur = [] then [] else [cur])"
| "split_ws cur (c # cs) =
     (if c = CHR 0x00 then (if cur = [] then [] else [cur])
      else if c \<in> set WHITESPACE then (if cur = [] then split_ws [] cs else cur # split_ws [] cs)
      else split_ws (cur @ [c]) cs)"

definition tokens :: "string \<Rightarrow> string list" where
  "tokens buf = split_ws [] buf"

text \<open>The equations of the loops are unfolded by hand.\<close>

declare parse_args.simps [simp del] showmappings_loop.simps [simp del] showmem_loop.simps [simp del]

subsection \<open>An example kernel and state\<close>

text \<open>
  One page, at \<open>0x1000\<close>, is mapped; its entry lies at \<open>0xF0400004\<close> and holds
  \<open>0x00123005\<close>: frame \<open>0x123000\<close>, present, not writable, user-accessible.
\<close>

definition ex_kern :: kern where
  "ex_kern =
     \<lparr>pgdir_walk = (\<lambda>m va. if drop_bit 12 va = 1 then Some 0xF0400004 else None),
      debuginfo_eip = (\<lambda>a. \<lparr>eip_file = ''kern/init.c'', eip_line = 24, eip_fn_name = ''i386_init'',
                             eip_fn_namelen = 9, eip_fn_addr = 0xF0100040\<rparr>),
      print_trapframe = (\<lambda>t. []),
      npages = 32768,
      sym_start = 0x0010000C, sym_entry = 0xF010000C, sym_etext = 0xF0101A75,
      sym_edata = 0xF0112300, sym_end = 0xF0112960\<rparr>"

definition ex_state :: kstate where
  "ex_state =
     \<lparr>console = [],
      mem = (\<lambda>a. 0)(0xF0400004 := 0x05, 0xF0400005 := 0x30, 0xF0400006 := 0x12,
                     0xF0001000 := 0xAA, 0xF0001004 := 0xBB),
      COLOR = 0x0700, curenv = None, ebp_reg = 0\<rparr>"

section \<open>Properties\<close>

subsection \<open>State and memory\<close>

lemma mem_cprintf [simp]: "mem (cprintf f a s) = mem s"
  and COLOR_cprintf [simp]: "COLOR (cprintf f a s) = COLOR s"
  and curenv_cprintf [simp]: "curenv (cprintf f a s) = curenv s"
  and ebp_cprintf [simp]: "ebp_reg (cprintf f a s) = ebp_reg s"
  and console_cprintf [simp]: "console (cprintf f a s) = console s @ [(f, a)]"
  by (simp_all add: cprintf_def)

lemma mem_print_perm [simp]: "mem (print_perm v s) = mem s"
  by (simp add: print_perm_def)

lemma read32_write32 [simp]: "read32 (write32 m a v) a = v"
proof -
  have n: "a \<noteq> a + 1" "a \<noteq> a + 2" "a \<noteq> a + 3" "a + 1 \<noteq> a + 2" "a + 1 \<noteq> a + 3" "a + 2 \<noteq> a + 3"
    by simp_all
  show ?thesis
    unfolding read32_def write32_def using n
    apply (simp add: fun_upd_def)
    apply (rule bit_word_eqI)
    apply (auto simp: bit_simps)
    subgoal for n by (cases "n < 24") auto
    done
qed

subsection \<open>Permission edit\<close>

lemma setperm_letter_Some:
  "setperm_letter c = Some b \<longleftrightarrow>
     (c = CHR ''P'' \<and> b = PTE_P) \<or> (c = CHR ''W'' \<and> b = PTE_W) \<or> (c = CHR ''U'' \<and> b = PTE_U)"
  by (auto simp: setperm_letter_def)

lemma mon_setperm_change:
  assumes "length argv = 4" "argv ! 2 = ''change''"
    and "pgdir_walk K (mem s) (strtol (argv ! 1)) = Some p"
  shows "mon_setperm K argv tf s =
           setperm_after p
             ((cprintf ''...Change permission bits...\<newline>'' []
                (print_perm (read32 (mem s) p) (cprintf ''Before: '' [] s)))
              \<lparr>mem := write32 (mem s) p (read32 (mem s) p OR strtol (argv ! 3))\<rparr>)"
  using assms by (simp add: mon_setperm_def argc_of_def Let_def)

lemma mon_setperm_set:
  assumes "length argv = 4" "argv ! 2 = ''set''"
    and "setperm_letter (first_char (argv ! 3)) = Some b"
    and "pgdir_walk K (mem s) (strtol (argv ! 1)) = Some p"
  shows "mon_setperm K argv tf s =
           setperm_after p
             ((cprintf ''...Set permission bits...\<newline>'' []
                (print_perm (read32 (mem s) p) (cprintf ''Before: '' [] s)))
              \<lparr>mem := write32 (mem s) p (read32 (mem s) p OR b)\<rparr>)"
  using assms
  by (simp add: mon_setperm_def argc_of_def Let_def setperm_clear_def setperm_set_def)

lemma mon_setperm_clear:
  assumes "length argv = 4" "argv ! 2 = ''clear''"
    and "setperm_letter (first_char (argv ! 3)) = Some b"
    and "pgdir_walk K (mem s) (strtol (argv ! 1)) = Some p"
  shows "mon_setperm K argv tf s =
           setperm_after p
             ((cprintf ''...Clear permission bits...\<newline>'' []
                (print_perm (read32 (mem s) p) (cprintf ''Before: '' [] s)))
              \<lparr>mem := write32 (mem s) p (read32 (mem s) p AND NOT b)\<rparr>)"
  using assms
  by (simp add: mon_setperm_def argc_of_def Let_def setperm_clear_def setperm_set_def)

lemma setperm_after_eq:
  "setperm_after p s = Returns 0 (print_perm (read32 (mem s) p) (cprintf ''After: '' [] s))"
  by (simp add: setperm_after_def Let_def)

lemma mon_setperm_null:
  assumes "length argv = 4" and "pgdir_walk K (mem s) (strtol (argv ! 1)) = None"
  shows "mon_setperm K argv tf s = Fault NullDeref (cprintf ''Before: '' [] s)"
  using assms by (simp add: mon_setperm_def argc_of_def Let_def)

lemma ex_walk: "pgdir_walk ex_kern m (strtol ''0x1000'') = Some 0xF0400004"
  by (simp add: ex_kern_def strtol_def digit_of_def)

lemma ex_entry: "read32 (mem ex_state) 0xF0400004 = 0x123005"
  by (simp add: ex_state_def read32_def)

text \<open>
  C6. For an address whose page is mapped and any mask, \<open>setperm ADDR change MASK\<close>
  returns after setting the entry to the bitwise OR of its old value with the parsed
  mask; every bit that was set in the entry is still set.
\<close>

theorem setperm_change_or:
  assumes "length argv = 4" and "argv ! 2 = ''change''"
    and "pgdir_walk K (mem s) (strtol (argv ! 1)) = Some p"
  shows "\<exists>s'. mon_setperm K argv tf s = Returns 0 s' \<and>
           read32 (mem s') p = read32 (mem s) p OR strtol (argv ! 3) \<and>
           (\<forall>n. bit (read32 (mem s) p) n \<longrightarrow> bit (read32 (mem s') p) n)"
  by (simp add: mon_setperm_change [OF assms] setperm_after_eq bit_or_iff)

theorem setperm_change_or_witness:
  "length [''setperm'', ''0x1000'', ''change'', ''0x2''] = 4 \<and>
   [''setperm'', ''0x1000'', ''change'', ''0x2''] ! 2 = ''change'' \<and>
   pgdir_walk ex_kern (mem ex_state) (strtol ([''setperm'', ''0x1000'', ''change'', ''0x2''] ! 1))
     = Some 0xF0400004 \<and>
   (\<exists>s'. mon_setperm ex_kern [''setperm'', ''0x1000'', ''change'', ''0x2''] None ex_state
            = Returns 0 s' \<and>
         read32 (mem s') 0xF0400004 = 0x123007)"
proof -
  let ?argv = "[''setperm'', ''0x1000'', ''change'', ''0x2'']"
  have h1: "length ?argv = 4" and h2: "?argv ! 2 = ''change''" by simp_all
  have h3: "pgdir_walk ex_kern (mem ex_state) (strtol (?argv ! 1)) = Some 0xF0400004"
    by (simp add: ex_walk)
  have v: "read32 (mem ex_state) 0xF0400004 OR strtol (?argv ! 3) = 0x123007"
    by (simp add: ex_entry strtol_def digit_of_def)
  from setperm_change_or [OF h1 h2 h3, of None] v h1 h2 h3 show ?thesis
    by auto
qed

text \<open>
  C5. \<open>setperm ADDR set W\<close> on an address whose entry is present and not writable
  prints the writable bit as 0 before and as 1 after the change (present as 1 both
  times, the user bit as it was), and leaves the present and the user bit of the
  entry as they were.
\<close>

theorem setperm_set_W:
  assumes "length argv = 4" and "argv ! 2 = ''set''" and "first_char (argv ! 3) = CHR ''W''"
    and "pgdir_walk K (mem s) (strtol (argv ! 1)) = Some p"
    and "read32 (mem s) p AND PTE_P \<noteq> 0" and "read32 (mem s) p AND PTE_W = 0"
  shows "\<exists>s'. mon_setperm K argv tf s = Returns 0 s' \<and>
           console s' = console s @
             [(''Before: '', []),
              (''PTE_P: %x, PTE_W: %x, PTE_U: %x\<newline>'',
                 [Num 1, Num 0, Num (to_bool (read32 (mem s) p AND PTE_U))]),
              (''...Set permission bits...\<newline>'', []),
              (''After: '', []),
              (''PTE_P: %x, PTE_W: %x, PTE_U: %x\<newline>'',
                 [Num 1, Num 1, Num (to_bool (read32 (mem s) p AND PTE_U))])] \<and>
           read32 (mem s') p AND PTE_P = read32 (mem s) p AND PTE_P \<and>
           read32 (mem s') p AND PTE_U = read32 (mem s) p AND PTE_U"
proof -
  have l: "setperm_letter (first_char (argv ! 3)) = Some PTE_W"
    using assms(3) by (simp add: setperm_letter_Some)
  have p: "(read32 (mem s) p OR PTE_W) AND PTE_P = read32 (mem s) p AND PTE_P"
    by (simp add: PTE_P_def PTE_W_def word_ao_dist)
  have u: "(read32 (mem s) p OR PTE_W) AND PTE_U = read32 (mem s) p AND PTE_U"
    by (simp add: PTE_U_def PTE_W_def word_ao_dist)
  have w: "(read32 (mem s) p OR PTE_W) AND PTE_W = PTE_W"
    by (simp add: word_ao_dist assms(6))
  have w0: "PTE_W \<noteq> 0" by (simp add: PTE_W_def)
  show ?thesis
    using assms(5,6) w0
    by (simp add: mon_setperm_set [OF assms(1,2) l assms(4)] setperm_after_eq print_perm_def
        to_bool_def p u w)
qed

theorem setperm_set_W_witness:
  "length [''setperm'', ''0x1000'', ''set'', ''W''] = 4 \<and>
   [''setperm'', ''0x1000'', ''set'', ''W''] ! 2 = ''set'' \<and>
   first_char ([''setperm'', ''0x1000'', ''set'', ''W''] ! 3) = CHR ''W'' \<and>
   pgdir_walk ex_kern (mem ex_state) (strtol ([''setperm'', ''0x1000'', ''set'', ''W''] ! 1))
     = Some 0xF0400004 \<and>
   read32 (mem ex_state) 0xF0400004 AND PTE_P \<noteq> 0 \<and>
   read32 (mem ex_state) 0xF0400004 AND PTE_W = 0 \<and>
   (\<exists>s'. mon_setperm ex_kern [''setperm'', ''0x1000'', ''set'', ''W''] None ex_state
            = Returns 0 s' \<and>
         console s' =
           [(''Before: '', []),
            (''PTE_P: %x, PTE_W: %x, PTE_U: %x\<newline>'', [Num 1, Num 0, Num 1]),
            (''...Set permission bits...\<newline>'', []),
            (''After: '', []),
            (''PTE_P: %x, PTE_W: %x, PTE_U: %x\<newline>'', [Num 1, Num 1, Num 1])] \<and>
         read32 (mem s') 0xF0400004 AND PTE_P = 1 \<and>
         read32 (mem s') 0xF0400004 AND PTE_U = 4)"
proof -
  let ?argv = "[''setperm'', ''0x1000'', ''set'', ''W'']"
  have h1: "length ?argv = 4" and h2: "?argv ! 2 = ''set''"
    and h3: "first_char (?argv ! 3) = CHR ''W''"
    by (simp_all add: first_char_def)
  have h4: "pgdir_walk ex_kern (mem ex_state) (strtol (?argv ! 1)) = Some 0xF0400004"
    by (simp add: ex_walk)
  have h5: "read32 (mem ex_state) 0xF0400004 AND PTE_P \<noteq> 0"
    and h6: "read32 (mem ex_state) 0xF0400004 AND PTE_W = 0"
    by (simp_all add: ex_entry PTE_P_def PTE_W_def)
  have v: "to_bool (read32 (mem ex_state) 0xF0400004 AND PTE_U) = 1"
    "read32 (mem ex_state) 0xF0400004 AND PTE_P = 1"
    "read32 (mem ex_state) 0xF0400004 AND PTE_U = 4"
    "console ex_state = []"
    by (simp_all add: ex_entry PTE_P_def PTE_U_def to_bool_def) (simp add: ex_state_def)
  from setperm_set_W [OF h1 h2 h3 h4 h5 h6, of None] h1 h2 h3 h4 h5 h6 show ?thesis
    unfolding v by (auto simp: to_bool_def)
qed

lemma setperm_set_clear_entry:
  assumes "setperm_letter (first_char l) = Some b"
    and "pgdir_walk K (mem s) (strtol a) = Some p"
  shows "\<exists>s1. mon_setperm K [c1, a, ''set'', l] tf s = Returns 0 s1 \<and>
           (pgdir_walk K (mem s1) (strtol a) = Some p \<longrightarrow>
              (\<exists>s2. mon_setperm K [c2, a, ''clear'', l] tf s1 = Returns 0 s2 \<and>
                 read32 (mem s2) p = read32 (mem s) p AND NOT b \<and>
                 (read32 (mem s) p AND b = 0 \<longrightarrow> read32 (mem s2) p = read32 (mem s) p)))"
proof -
  let ?e = "read32 (mem s) p"
  have set: "mon_setperm K [c1, a, ''set'', l] tf s =
      setperm_after p
        ((cprintf ''...Set permission bits...\<newline>'' []
           (print_perm ?e (cprintf ''Before: '' [] s)))
         \<lparr>mem := write32 (mem s) p (?e OR b)\<rparr>)"
    using assms by (intro mon_setperm_set) simp_all
  then obtain s1 where s1: "mon_setperm K [c1, a, ''set'', l] tf s = Returns 0 s1"
    and e1: "read32 (mem s1) p = ?e OR b"
    by (simp add: setperm_after_eq)
  have "\<exists>s2. mon_setperm K [c2, a, ''clear'', l] tf s1 = Returns 0 s2 \<and>
          read32 (mem s2) p = ?e AND NOT b \<and>
          (?e AND b = 0 \<longrightarrow> read32 (mem s2) p = ?e)"
    if w: "pgdir_walk K (mem s1) (strtol a) = Some p"
  proof -
    have "mon_setperm K [c2, a, ''clear'', l] tf s1 =
      setperm_after p
        ((cprintf ''...Clear permission bits...\<newline>'' []
           (print_perm (read32 (mem s1) p) (cprintf ''Before: '' [] s1)))
         \<lparr>mem := write32 (mem s1) p (read32 (mem s1) p AND NOT b)\<rparr>)"
      using assms(1) w by (intro mon_setperm_clear) simp_all
    moreover have "(?e OR b) AND NOT b = ?e AND NOT b"
      by (simp add: bit_eq_iff bit_simps) blast
    moreover have "?e AND NOT b = ?e" if "?e AND b = 0"
    proof (rule bit_word_eqI)
      fix n assume n: "n < LENGTH(32)"
      from that have "\<not> bit (?e AND b) n" by simp
      then show "bit (?e AND NOT b) n = bit ?e n" using n by (auto simp: bit_simps)
    qed
    ultimately show ?thesis by (simp add: setperm_after_eq e1)
  qed
  with s1 show ?thesis by blast
qed


lemma ex_letter_P: "setperm_letter (first_char ''P'') = Some PTE_P"
  by (simp add: setperm_letter_Some first_char_def)

lemma ex_letter_W: "setperm_letter (first_char ''W'') = Some PTE_W"
  by (simp add: setperm_letter_Some first_char_def)

text \<open>
  C2, as amended. For an address whose page is mapped and a permission letter among
  P, W, U: \<open>setperm ADDR set L\<close> returns, and when the address is still mapped by
  the same entry, \<open>setperm ADDR clear L\<close> returns and leaves the entry as it was
  before the two commands with the bit of the letter cleared. The entry is restored
  exactly when that bit was clear before the two commands.
\<close>

theorem setperm_set_then_clear:
  assumes "setperm_letter (first_char l) = Some b"
    and "pgdir_walk K (mem s) (strtol a) = Some p"
  shows "\<exists>s1. mon_setperm K [c1, a, ''set'', l] tf s = Returns 0 s1 \<and>
           (pgdir_walk K (mem s1) (strtol a) = Some p \<longrightarrow>
              (\<exists>s2. mon_setperm K [c2, a, ''clear'', l] tf s1 = Returns 0 s2 \<and>
                 read32 (mem s2) p = read32 (mem s) p AND NOT b \<and>
                 (read32 (mem s) p AND b = 0 \<longrightarrow> read32 (mem s2) p = read32 (mem s) p)))"
  using assms by (rule setperm_set_clear_entry)

theorem setperm_set_then_clear_witness:
  "setperm_letter (first_char ''W'') = Some PTE_W \<and>
   pgdir_walk ex_kern (mem ex_state) (strtol ''0x1000'') = Some 0xF0400004 \<and>
   read32 (mem ex_state) 0xF0400004 AND PTE_W = 0 \<and>
   (\<exists>s1 s2. mon_setperm ex_kern [''setperm'', ''0x1000'', ''set'', ''W''] None ex_state
                = Returns 0 s1 \<and>
            pgdir_walk ex_kern (mem s1) (strtol ''0x1000'') = Some 0xF0400004 \<and>
            mon_setperm ex_kern [''setperm'', ''0x1000'', ''clear'', ''W''] None s1
                = Returns 0 s2 \<and>
            read32 (mem s2) 0xF0400004 = 0x123005)"
proof -
  have w: "pgdir_walk ex_kern m (strtol ''0x1000'') = Some 0xF0400004" for m
    by (rule ex_walk)
  have z: "read32 (mem ex_state) 0xF0400004 AND PTE_W = 0"
    by (simp add: ex_entry PTE_W_def)
  from setperm_set_then_clear [OF ex_letter_W w [of "mem ex_state"], of "''setperm''" None "''setperm''"]
  show ?thesis using w z ex_entry ex_letter_W by auto
qed

text \<open>
  The claim as stated fails when the bit was already set: on the present entry
  \<open>0x00123005\<close>, set P then clear P leaves \<open>0x00123004\<close>.
\<close>

theorem setperm_set_then_clear_counterexample:
  "\<exists>s1 s2. mon_setperm ex_kern [''setperm'', ''0x1000'', ''set'', ''P''] None ex_state
              = Returns 0 s1 \<and>
           mon_setperm ex_kern [''setperm'', ''0x1000'', ''clear'', ''P''] None s1
              = Returns 0 s2 \<and>
           read32 (mem ex_state) 0xF0400004 = 0x123005 \<and>
           read32 (mem s2) 0xF0400004 = 0x123004"
proof -
  have w: "pgdir_walk ex_kern m (strtol ''0x1000'') = Some 0xF0400004" for m
    by (rule ex_walk)
  have v: "read32 (mem ex_state) 0xF0400004 AND NOT PTE_P = 0x123004"
    by (simp add: ex_entry PTE_P_def)
  from setperm_set_clear_entry [OF ex_letter_P w [of "mem ex_state"], of "''setperm''" None "''setperm''"]
  show ?thesis using w v ex_entry by auto
qed

subsection \<open>Display colour\<close>

text \<open>
  C10. With exactly two arguments \<open>setcolor\<close> sets the global colour to the parsed
  argument with bits 0 and 4 cleared and reports it; with any other number of
  arguments it prints the usage line and leaves the state, so the colour, as it was.
\<close>

theorem setcolor_sets_color:
  "(length argv = 2 \<longrightarrow>
      mon_setcolor argv tf s =
        Returns 0 (cprintf ''Color set to %x\<newline>'' [Num (strtol (argv ! 1) AND NOT 0x11)]
          (s\<lparr>COLOR := strtol (argv ! 1) AND NOT 0x11\<rparr>))) \<and>
   (length argv \<noteq> 2 \<longrightarrow>
      mon_setcolor argv tf s = Returns 0 (cprintf ''Usage: setcolor [int]\<newline>'' [] s))"
  by (simp add: mon_setcolor_def argc_of_def Let_def)

theorem setcolor_sets_color_witness:
  "length [''setcolor'', ''0x1f''] = 2 \<and>
   mon_setcolor [''setcolor'', ''0x1f''] None ex_state =
     Returns 0 (cprintf ''Color set to %x\<newline>'' [Num 0x0e] (ex_state\<lparr>COLOR := 0x0e\<rparr>)) \<and>
   length [''setcolor''] \<noteq> 2 \<and>
   mon_setcolor [''setcolor''] None ex_state =
     Returns 0 (cprintf ''Usage: setcolor [int]\<newline>'' [] ex_state)"
proof -
  have v: "strtol ([''setcolor'', ''0x1f''] ! 1) AND NOT 0x11 = 0x0e"
    by (simp add: strtol_def digit_of_def)
  show ?thesis
    using setcolor_sets_color [of "[''setcolor'', ''0x1f'']" None ex_state]
      setcolor_sets_color [of "[''setcolor'']" None ex_state]
    unfolding v by simp
qed

subsection \<open>Tokenizer and dispatcher\<close>

lemma gobble_iff: "gobble c \<longleftrightarrow> c \<in> set WHITESPACE"
  by (auto simp: gobble_def strchr_ws_def WHITESPACE_def)

lemma in_arg_iff: "in_arg c \<longleftrightarrow> c \<noteq> CHR 0x00 \<and> c \<notin> set WHITESPACE"
  by (auto simp: in_arg_def strchr_ws_def)

lemma split_ws_args: "\<forall>c\<in>set w. in_arg c \<Longrightarrow> split_ws cur (w @ r) = split_ws (cur @ w) r"
  by (induction w arbitrary: cur) (auto simp: in_arg_iff)

lemma split_ws_gobble: "split_ws [] (dropWhile gobble b) = split_ws [] b"
  by (induction b) (auto simp: gobble_iff WHITESPACE_def)

lemma split_ws_end: "first_char b = CHR 0x00 \<Longrightarrow> split_ws [] b = []"
  by (cases b) (auto simp: first_char_def)

lemma split_ws_flush:
  assumes "w \<noteq> []" and "r = [] \<or> \<not> in_arg (hd r)"
  shows "split_ws w r = w # split_ws [] r"
  using assms by (cases r) (auto simp: in_arg_iff)

lemma split_ws_arg:
  assumes "b \<noteq> []" and "in_arg (hd b)"
  shows "split_ws [] b = takeWhile in_arg b # split_ws [] (dropWhile in_arg b)"
proof -
  let ?w = "takeWhile in_arg b" and ?r = "dropWhile in_arg b"
  have w: "?w \<noteq> []" using assms by (cases b) auto
  have r: "?r = [] \<or> \<not> in_arg (hd ?r)"
    by (metis hd_dropWhile)
  have a: "\<forall>c\<in>set ?w. in_arg c" by (auto dest: set_takeWhileD)
  have "split_ws [] (?w @ ?r) = split_ws ([] @ ?w) ?r" by (rule split_ws_args [OF a])
  then have "split_ws [] b = split_ws ?w ?r" by simp
  also have "\<dots> = ?w # split_ws [] ?r" by (rule split_ws_flush [OF w r])
  finally show ?thesis .
qed

lemma gobbled_arg:
  assumes "first_char (dropWhile gobble buf) \<noteq> CHR 0x00"
  shows "dropWhile gobble buf \<noteq> [] \<and> in_arg (hd (dropWhile gobble buf))"
proof -
  from assms have ne: "dropWhile gobble buf \<noteq> []"
    by (cases "dropWhile gobble buf") (simp_all add: first_char_def)
  then have "\<not> gobble (hd (dropWhile gobble buf))" by (metis hd_dropWhile)
  moreover from assms ne have "hd (dropWhile gobble buf) \<noteq> CHR 0x00"
    by (cases "dropWhile gobble buf") (simp_all add: first_char_def)
  ultimately show ?thesis using ne by (simp add: gobble_def in_arg_def)
qed

lemma parse_args_unfold:
  "parse_args buf argv =
     (if first_char (dropWhile gobble buf) = CHR 0x00 then Some argv
      else if length argv = MAXARGS - 1 then None
      else parse_args (dropWhile in_arg (dropWhile gobble buf))
             (argv @ [takeWhile in_arg (dropWhile gobble buf)]))"
  by (rule trans [OF parse_args.simps]) (simp only: Let_def)


lemma parse_args_tokens:
  "length argv < MAXARGS \<Longrightarrow>
   parse_args buf argv =
     (if length argv + length (tokens buf) < MAXARGS then Some (argv @ tokens buf) else None)"
proof (induction buf argv rule: parse_args.induct)
  case (1 buf argv)
  let ?b = "dropWhile gobble buf"
  have t: "tokens buf = split_ws [] ?b" by (simp add: tokens_def split_ws_gobble)
  show ?case
  proof (cases "first_char ?b = CHR 0x00")
    case True
    then have "tokens buf = []" using t by (simp add: split_ws_end)
    moreover have "parse_args buf argv = Some argv"
      using True by (simp add: parse_args_unfold)
    ultimately show ?thesis using "1.prems" by simp
  next
    case False
    from gobbled_arg [OF False] have "?b \<noteq> []" "in_arg (hd ?b)" by simp_all
    then have "split_ws [] ?b = takeWhile in_arg ?b # split_ws [] (dropWhile in_arg ?b)"
      by (rule split_ws_arg)
    then have s: "tokens buf = takeWhile in_arg ?b # tokens (dropWhile in_arg ?b)"
      using t by (simp add: tokens_def)
    show ?thesis
    proof (cases "length argv = MAXARGS - 1")
      case True
      have "parse_args buf argv = None"
        using False True by (simp add: parse_args_unfold)
      moreover have "\<not> length argv + length (tokens buf) < MAXARGS"
        using True by (simp add: s)
      ultimately show ?thesis by simp
    next
      case n: False
      with "1.prems" have lt: "length (argv @ [takeWhile in_arg ?b]) < MAXARGS" by simp
      have "parse_args buf argv = parse_args (dropWhile in_arg ?b) (argv @ [takeWhile in_arg ?b])"
        using False n by (simp add: parse_args_unfold)
      also have "\<dots> =
        (if length (argv @ [takeWhile in_arg ?b]) + length (tokens (dropWhile in_arg ?b)) < MAXARGS
         then Some ((argv @ [takeWhile in_arg ?b]) @ tokens (dropWhile in_arg ?b)) else None)"
        by (rule "1.IH" [OF refl False n lt])
      also have "\<dots> =
        (if length argv + length (tokens buf) < MAXARGS then Some (argv @ tokens buf) else None)"
        by (simp add: s)
      finally show ?thesis .
    qed
  qed
qed

lemma parse_args_eq:
  "parse_args buf [] = (if length (tokens buf) < MAXARGS then Some (tokens buf) else None)"
  using parse_args_tokens [of "[]" buf] by (simp add: MAXARGS_def)

lemma runcmd_too_many:
  assumes "MAXARGS \<le> length (tokens buf)"
  shows "runcmd cmds buf tf s =
           Returns 0 (cprintf ''Too many arguments (max %d)\<newline>'' [Num 16] s)"
  using assms by (simp add: runcmd_def parse_args_eq MAXARGS_def)

lemma lookup_cmd_None: "a \<notin> set (map name cmds) \<Longrightarrow> lookup_cmd cmds a = None"
  by (induction cmds) auto

lemma lookup_cmd_Some: "lookup_cmd cmds a = Some c \<Longrightarrow> c \<in> set cmds \<and> name c = a"
  by (induction cmds) (auto split: if_splits)

lemma runcmd_unknown:
  assumes "tokens buf = a # as" and "length (tokens buf) < MAXARGS"
    and "a \<notin> set (map name cmds)"
  shows "runcmd cmds buf tf s = Returns 0 (cprintf ''Unknown command '%s'\<newline>'' [Str a] s)"
  using assms by (simp add: runcmd_def parse_args_eq argc_of_def lookup_cmd_None)

lemma runcmd_found:
  assumes "tokens buf = a # as" and "length (tokens buf) < MAXARGS"
    and "lookup_cmd cmds a = Some c"
  shows "runcmd cmds buf tf s = func c (tokens buf) tf s"
  using assms by (simp add: runcmd_def parse_args_eq argc_of_def)

lemma command_names:
  "map name (commands K) =
     [''help'', ''kerninfo'', ''backtrace'', ''setcolor'', ''showmappings'', ''setperm'',
      ''showmem'', ''continue'', ''c'', ''stepi'', ''si'']"
  by (simp add: commands_def)

lemma commands_info: "map (\<lambda>c. (name c, desc c)) (commands K) = command_info"
  by (simp add: commands_def command_info_def)

lemma tokens_17: "tokens ''a b c d e f g h i j k l m n o p q'' =
  [''a'', ''b'', ''c'', ''d'', ''e'', ''f'', ''g'', ''h'', ''i'', ''j'', ''k'', ''l'', ''m'',
   ''n'', ''o'', ''p'', ''q'']"
  by (simp add: tokens_def WHITESPACE_def)

lemma monitor_loop_returns:
  "runcmd (commands K) buf tf s = Returns 0 s' \<Longrightarrow>
   monitor_loop K tf (Some buf # lines) s = monitor_loop K tf lines s'"
  by simp

lemma tokens_Help: "tokens ''Help me'' = [''Help'', ''me'']"
  by (simp add: tokens_def WHITESPACE_def)

lemma tokens_foo: "tokens ''foo x1 x2 x3 x4 x5 x6 x7 x8 x9 x10 x11 x12 x13 x14 x15'' =
  [''foo'', ''x1'', ''x2'', ''x3'', ''x4'', ''x5'', ''x6'', ''x7'', ''x8'', ''x9'', ''x10'',
   ''x11'', ''x12'', ''x13'', ''x14'', ''x15'']"
  by (simp add: tokens_def WHITESPACE_def)

lemma tokens_stepi: "tokens ''stepi'' = [''stepi'']"
  by (simp add: tokens_def WHITESPACE_def)

lemma tokens_continue_now: "tokens ''continue now'' = [''continue'', ''now'']"
  by (simp add: tokens_def WHITESPACE_def)

text \<open>
  C8. For a line with more whitespace-separated tokens than \<open>MAXARGS\<close>, the parse
  is given up with no argument vector, and \<open>runcmd\<close> returns 0 after the single
  report "Too many arguments", whatever the command table holds: no handler runs.
  (\<open>runcmd_too_many\<close> shows the same already for \<open>MAXARGS\<close> tokens.)
\<close>

theorem runcmd_too_many_arguments:
  assumes "MAXARGS < length (tokens buf)"
  shows "parse_args buf [] = None \<and>
         runcmd cmds buf tf s =
           Returns 0 (cprintf ''Too many arguments (max %d)\<newline>'' [Num 16] s)"
  using assms runcmd_too_many [of buf cmds tf s] by (simp add: parse_args_eq)

theorem runcmd_too_many_arguments_witness:
  "MAXARGS < length (tokens ''a b c d e f g h i j k l m n o p q'') \<and>
   parse_args ''a b c d e f g h i j k l m n o p q'' [] = None \<and>
   runcmd (commands ex_kern) ''a b c d e f g h i j k l m n o p q'' None ex_state =
     Returns 0 (cprintf ''Too many arguments (max %d)\<newline>'' [Num 16] ex_state)"
proof -
  have h: "MAXARGS < length (tokens ''a b c d e f g h i j k l m n o p q'')"
    by (simp add: tokens_17 MAXARGS_def)
  from runcmd_too_many_arguments [OF h, of "commands ex_kern" None ex_state] h
  show ?thesis by simp
qed

text \<open>
  C9, as amended. For a line of at least one and fewer than \<open>MAXARGS\<close> tokens whose
  first token equals no name of the command table, \<open>runcmd\<close> reports
  "Unknown command" with that token and returns 0, and the loop of the monitor goes
  on with the next line.
\<close>

theorem runcmd_unknown_command:
  assumes "tokens buf = a # as" and "length (tokens buf) < MAXARGS"
    and "a \<notin> set (map name (commands K))"
  shows "runcmd (commands K) buf tf s =
           Returns 0 (cprintf ''Unknown command '%s'\<newline>'' [Str a] s) \<and>
         monitor_loop K tf (Some buf # lines) s =
           monitor_loop K tf lines (cprintf ''Unknown command '%s'\<newline>'' [Str a] s)"
  using runcmd_unknown [OF assms, of tf s] by (simp add: monitor_loop_returns)

theorem runcmd_unknown_command_witness:
  "tokens ''Help me'' = [''Help'', ''me''] \<and> length (tokens ''Help me'') < MAXARGS \<and>
   ''Help'' \<notin> set (map name (commands ex_kern)) \<and>
   runcmd (commands ex_kern) ''Help me'' None ex_state =
     Returns 0 (cprintf ''Unknown command '%s'\<newline>'' [Str ''Help''] ex_state) \<and>
   monitor_loop ex_kern None [Some ''Help me''] ex_state =
     Blocked (cprintf ''Unknown command '%s'\<newline>'' [Str ''Help''] ex_state)"
proof -
  have h1: "tokens ''Help me'' = ''Help'' # [''me'']" by (simp add: tokens_Help)
  have h2: "length (tokens ''Help me'') < MAXARGS" by (simp add: tokens_Help MAXARGS_def)
  have h3: "''Help'' \<notin> set (map name (commands ex_kern))" by (simp add: command_names)
  from runcmd_unknown_command [OF h1 h2 h3, of None ex_state "[]"] h1 h2 h3
  show ?thesis by simp
qed

text \<open>
  The claim as stated fails for a line of \<open>MAXARGS\<close> tokens or more: with sixteen
  tokens the first of which is no command, the report is "Too many arguments".
\<close>

theorem runcmd_unknown_command_counterexample:
  "tokens ''foo x1 x2 x3 x4 x5 x6 x7 x8 x9 x10 x11 x12 x13 x14 x15'' \<noteq> [] \<and>
   hd (tokens ''foo x1 x2 x3 x4 x5 x6 x7 x8 x9 x10 x11 x12 x13 x14 x15'') = ''foo'' \<and>
   ''foo'' \<notin> set (map name (commands ex_kern)) \<and>
   runcmd (commands ex_kern) ''foo x1 x2 x3 x4 x5 x6 x7 x8 x9 x10 x11 x12 x13 x14 x15'' None ex_state =
     Returns 0 (cprintf ''Too many arguments (max %d)\<newline>'' [Num 16] ex_state) \<and>
   runcmd (commands ex_kern) ''foo x1 x2 x3 x4 x5 x6 x7 x8 x9 x10 x11 x12 x13 x14 x15'' None ex_state \<noteq>
     Returns 0 (cprintf ''Unknown command '%s'\<newline>'' [Str ''foo''] ex_state)"
proof -
  have h: "MAXARGS \<le> length (tokens ''foo x1 x2 x3 x4 x5 x6 x7 x8 x9 x10 x11 x12 x13 x14 x15'')"
    by (simp add: tokens_foo MAXARGS_def)
  have n: "''foo'' \<notin> set (map name (commands ex_kern))" by (simp add: command_names)
  have d: "cprintf ''Too many arguments (max %d)\<newline>'' [Num 16] ex_state \<noteq>
           cprintf ''Unknown command '%s'\<newline>'' [Str ''foo''] ex_state"
  proof
    assume "cprintf ''Too many arguments (max %d)\<newline>'' [Num 16] ex_state =
            cprintf ''Unknown command '%s'\<newline>'' [Str ''foo''] ex_state"
    then have "console (cprintf ''Too many arguments (max %d)\<newline>'' [Num 16] ex_state) =
               console (cprintf ''Unknown command '%s'\<newline>'' [Str ''foo''] ex_state)"
      by (rule arg_cong)
    then show False by simp
  qed
  show ?thesis
    using runcmd_too_many [OF h, of "commands ex_kern" None ex_state] n d
    by (simp add: tokens_foo)
qed

subsection \<open>Execution control without a saved context\<close>

lemma mon_continue_no_tf:
  "mon_continue argv None s =
     Returns 0 (cprintf (if length argv = 1 then ''Not in backtrace\<newline>''
                         else ''Usage: c\<newline>       continue\<newline>'') [] s)"
  by (simp add: mon_continue_def argc_of_def)

lemma mon_stepi_no_tf:
  "mon_stepi argv None s =
     Returns 0 (cprintf (if length argv = 1 then ''Not in backtrace\<newline>''
                         else ''Usage: si\<newline>       stepi\<newline>'') [] s)"
  by (simp add: mon_stepi_def argc_of_def)

lemma lookup_continue:
  "a \<in> {''continue'', ''c''} \<Longrightarrow> \<exists>c. lookup_cmd (commands K) a = Some c \<and> func c = mon_continue"
  by (auto simp: commands_def)

lemma lookup_stepi:
  "a \<in> {''stepi'', ''si''} \<Longrightarrow> \<exists>c. lookup_cmd (commands K) a = Some c \<and> func c = mon_stepi"
  by (auto simp: commands_def)

lemma runcmd_continue_no_tf:
  assumes "tokens buf = a # as" and "length (tokens buf) < MAXARGS"
    and "a \<in> {''continue'', ''c''}"
  shows "runcmd (commands K) buf None s =
           Returns 0 (cprintf (if as = [] then ''Not in backtrace\<newline>''
                               else ''Usage: c\<newline>       continue\<newline>'') [] s)"
proof -
  from lookup_continue [OF assms(3)] obtain c
    where c: "lookup_cmd (commands K) a = Some c" "func c = mon_continue" by blast
  have "runcmd (commands K) buf None s = mon_continue (a # as) None s"
    using runcmd_found [OF assms(1,2) c(1), of None s] c(2) assms(1) by simp
  then show ?thesis by (simp add: mon_continue_no_tf)
qed

lemma runcmd_stepi_no_tf:
  assumes "tokens buf = a # as" and "length (tokens buf) < MAXARGS"
    and "a \<in> {''stepi'', ''si''}"
  shows "runcmd (commands K) buf None s =
           Returns 0 (cprintf (if as = [] then ''Not in backtrace\<newline>''
                               else ''Usage: si\<newline>       stepi\<newline>'') [] s)"
proof -
  from lookup_stepi [OF assms(3)] obtain c
    where c: "lookup_cmd (commands K) a = Some c" "func c = mon_stepi" by blast
  have "runcmd (commands K) buf None s = mon_stepi (a # as) None s"
    using runcmd_found [OF assms(1,2) c(1), of None s] c(2) assms(1) by simp
  then show ?thesis by (simp add: mon_stepi_no_tf)
qed

text \<open>
  C7, as amended. With a null trap frame \<open>continue\<close> and \<open>stepi\<close> return 0 and
  change nothing but the console, by one line: "Not in backtrace" when called with
  no further argument, the usage message of the command otherwise. For a line that
  starts with one of the four command names, \<open>runcmd\<close> returns 0 after that line
  and the loop of the monitor goes on.
\<close>

theorem continue_stepi_no_context:
  "mon_continue argv None s =
     Returns 0 (cprintf (if length argv = 1 then ''Not in backtrace\<newline>''
                         else ''Usage: c\<newline>       continue\<newline>'') [] s) \<and>
   mon_stepi argv None s =
     Returns 0 (cprintf (if length argv = 1 then ''Not in backtrace\<newline>''
                         else ''Usage: si\<newline>       stepi\<newline>'') [] s) \<and>
   (tokens buf = a # as \<and> length (tokens buf) < MAXARGS \<and> a \<in> {''continue'', ''c''} \<longrightarrow>
      runcmd (commands K) buf None s =
        Returns 0 (cprintf (if as = [] then ''Not in backtrace\<newline>''
                            else ''Usage: c\<newline>       continue\<newline>'') [] s) \<and>
      monitor_loop K None (Some buf # lines) s =
        monitor_loop K None lines
          (cprintf (if as = [] then ''Not in backtrace\<newline>''
                    else ''Usage: c\<newline>       continue\<newline>'') [] s)) \<and>
   (tokens buf = a # as \<and> length (tokens buf) < MAXARGS \<and> a \<in> {''stepi'', ''si''} \<longrightarrow>
      runcmd (commands K) buf None s =
        Returns 0 (cprintf (if as = [] then ''Not in backtrace\<newline>''
                            else ''Usage: si\<newline>       stepi\<newline>'') [] s) \<and>
      monitor_loop K None (Some buf # lines) s =
        monitor_loop K None lines
          (cprintf (if as = [] then ''Not in backtrace\<newline>''
                    else ''Usage: si\<newline>       stepi\<newline>'') [] s))"
proof (intro conjI impI)
  show "mon_continue argv None s =
     Returns 0 (cprintf (if length argv = 1 then ''Not in backtrace\<newline>''
                         else ''Usage: c\<newline>       continue\<newline>'') [] s)"
    by (rule mon_continue_no_tf)
  show "mon_stepi argv None s =
     Returns 0 (cprintf (if length argv = 1 then ''Not in backtrace\<newline>''
                         else ''Usage: si\<newline>       stepi\<newline>'') [] s)"
    by (rule mon_stepi_no_tf)
next
  assume h: "tokens buf = a # as \<and> length (tokens buf) < MAXARGS \<and> a \<in> {''continue'', ''c''}"
  then have h1: "tokens buf = a # as" and h2: "length (tokens buf) < MAXARGS"
    and h3: "a \<in> {''continue'', ''c''}" by blast+
  have r: "runcmd (commands K) buf None s =
        Returns 0 (cprintf (if as = [] then ''Not in backtrace\<newline>''
                            else ''Usage: c\<newline>       continue\<newline>'') [] s)"
    by (rule runcmd_continue_no_tf [OF h1 h2 h3])
  show "runcmd (commands K) buf None s =
        Returns 0 (cprintf (if as = [] then ''Not in backtrace\<newline>''
                            else ''Usage: c\<newline>       continue\<newline>'') [] s)"
    by (rule r)
  show "monitor_loop K None (Some buf # lines) s =
        monitor_loop K None lines
          (cprintf (if as = [] then ''Not in backtrace\<newline>''
                    else ''Usage: c\<newline>       continue\<newline>'') [] s)"
    by (rule monitor_loop_returns [OF r])
next
  assume h: "tokens buf = a # as \<and> length (tokens buf) < MAXARGS \<and> a \<in> {''stepi'', ''si''}"
  then have h1: "tokens buf = a # as" and h2: "length (tokens buf) < MAXARGS"
    and h3: "a \<in> {''stepi'', ''si''}" by blast+
  have r: "runcmd (commands K) buf None s =
        Returns 0 (cprintf (if as = [] then ''Not in backtrace\<newline>''
                            else ''Usage: si\<newline>       stepi\<newline>'') [] s)"
    by (rule runcmd_stepi_no_tf [OF h1 h2 h3])
  show "runcmd (commands K) buf None s =
        Returns 0 (cprintf (if as = [] then ''Not in backtrace\<newline>''
                            else ''Usage: si\<newline>       stepi\<newline>'') [] s)"
    by (rule r)
  show "monitor_loop K None (Some buf # lines) s =
        monitor_loop K None lines
          (cprintf (if as = [] then ''Not in backtrace\<newline>''
                    else ''Usage: si\<newline>       stepi\<newline>'') [] s)"
    by (rule monitor_loop_returns [OF r])
qed

theorem continue_stepi_no_context_witness:
  "mon_continue [''continue''] None ex_state =
     Returns 0 (cprintf ''Not in backtrace\<newline>'' [] ex_state) \<and>
   mon_stepi [''continue''] None ex_state =
     Returns 0 (cprintf ''Not in backtrace\<newline>'' [] ex_state) \<and>
   mon_continue [''continue'', ''now''] None ex_state =
     Returns 0 (cprintf ''Usage: c\<newline>       continue\<newline>'' [] ex_state) \<and>
   mon_stepi [''continue'', ''now''] None ex_state =
     Returns 0 (cprintf ''Usage: si\<newline>       stepi\<newline>'' [] ex_state) \<and>
   tokens ''stepi'' = [''stepi''] \<and> length (tokens ''stepi'') < MAXARGS \<and>
   ''stepi'' \<in> {''stepi'', ''si''} \<and>
   runcmd (commands ex_kern) ''stepi'' None ex_state =
     Returns 0 (cprintf ''Not in backtrace\<newline>'' [] ex_state) \<and>
   monitor_loop ex_kern None [Some ''stepi''] ex_state =
     Blocked (cprintf ''Not in backtrace\<newline>'' [] ex_state) \<and>
   tokens ''continue now'' = [''continue'', ''now''] \<and>
   length (tokens ''continue now'') < MAXARGS \<and>
   ''continue'' \<in> {''continue'', ''c''} \<and>
   monitor_loop ex_kern None [Some ''continue now''] ex_state =
     Blocked (cprintf ''Usage: c\<newline>       continue\<newline>'' [] ex_state)"
  using continue_stepi_no_context
          [of "[''continue'']" ex_state "''stepi''" "''stepi''" "[]" ex_kern "[]"]
        continue_stepi_no_context
          [of "[''continue'', ''now'']" ex_state "''continue now''" "''continue''" "[''now'']"
              ex_kern "[]"]
  by (simp add: tokens_stepi tokens_continue_now MAXARGS_def)

text \<open>
  The claim as stated fails when arguments follow the command name: the usage line
  is printed, not "Not in backtrace".
\<close>

theorem continue_stepi_no_context_counterexample:
  "runcmd (commands ex_kern) ''continue now'' None ex_state =
     Returns 0 (cprintf ''Usage: c\<newline>       continue\<newline>'' [] ex_state) \<and>
   console (cprintf ''Usage: c\<newline>       continue\<newline>'' [] ex_state) =
     [(''Usage: c\<newline>       continue\<newline>'', [])]"
proof -
  have l: "length (tokens ''continue now'') < MAXARGS"
    by (simp add: tokens_continue_now MAXARGS_def)
  have c: "lookup_cmd (commands ex_kern) ''continue'' =
             Some \<lparr>name = ''continue'', desc = ''Continue execution the environment in tf'',
                   func = mon_continue\<rparr>"
    by (simp add: commands_def)
  show ?thesis
    using runcmd_found [OF tokens_continue_now l c, of None ex_state]
    by (simp add: tokens_continue_now mon_continue_no_tf) (simp add: ex_state_def)
qed

subsection \<open>Unmapped addresses, physical dumps and the top of the address range\<close>

lemma strtol_3000: "strtol ''0x3000'' = 0x3000"
  by (simp add: strtol_def digit_of_def)

lemma strtol_1004: "strtol ''0x1004'' = 0x1004"
  by (simp add: strtol_def digit_of_def)

lemma strtol_4: "strtol ''4'' = 4"
  by (simp add: strtol_def digit_of_def)

lemma strtol_max: "strtol ''0x7fffffff'' = 0x7fffffff"
  by (simp add: strtol_def digit_of_def)

lemma strtol_m1: "strtol ''-1'' = - 1"
  by (simp add: strtol_def digit_of_def)

lemma ex_walk_3000: "pgdir_walk ex_kern m 0x3000 = None"
  by (simp add: ex_kern_def)

lemma tokens_setperm: "tokens ''setperm 0x3000 set W'' = [''setperm'', ''0x3000'', ''set'', ''W'']"
  by (simp add: tokens_def WHITESPACE_def)

lemma showmappings_3000:
  "mon_showmappings ex_kern [''showmappings'', ''0x3000''] None ex_state =
     Returns 0 (cprintf ''No mapping\<newline>'' []
       (cprintf ''%08x---%08x: '' [Num 0x3000, Num 0x4000] ex_state))"
proof -
  have r: "showmappings_range [''showmappings'', ''0x3000''] = Some (0x3000, 0x4000)"
    by (simp add: showmappings_range_def argc_of_def strtol_3000 ROUNDDOWN_def ROUNDUP_def
        PGSIZE_def add_long_def Let_def)
  have a: "add_long 0x3000 PGSIZE = Some 0x4000" by (simp add: add_long_def PGSIZE_def)
  have a': "add_long 0x4000 PGSIZE = Some 0x5000" by (simp add: add_long_def PGSIZE_def)
  show ?thesis
    apply (simp add: mon_showmappings_def argc_of_def r)
    apply (subst showmappings_loop.simps)
    apply (simp add: a ex_walk_3000 Let_def)
    apply (subst showmappings_loop.simps)
    apply simp
    done
qed

text \<open>
  C1. The claim asks for a reported error when \<open>setperm\<close> is given an address with
  no mapping. The code has no such guard: for \<open>setperm 0x3000 set W\<close>, where the
  walk returns the null pointer, it prints "Before: " and then dereferences the null
  entry, as a handler call and through \<open>runcmd\<close> alike. \<open>showmappings\<close> on the
  same address tests the pointer and reports "No mapping".
\<close>

theorem setperm_unmapped_null_deref:
  "pgdir_walk ex_kern (mem ex_state) (strtol ''0x3000'') = None \<and>
   mon_setperm ex_kern [''setperm'', ''0x3000'', ''set'', ''W''] None ex_state =
     Fault NullDeref (cprintf ''Before: '' [] ex_state) \<and>
   runcmd (commands ex_kern) ''setperm 0x3000 set W'' None ex_state =
     Fault NullDeref (cprintf ''Before: '' [] ex_state) \<and>
   mon_showmappings ex_kern [''showmappings'', ''0x3000''] None ex_state =
     Returns 0 (cprintf ''No mapping\<newline>'' []
       (cprintf ''%08x---%08x: '' [Num 0x3000, Num 0x4000] ex_state))"
proof -
  let ?argv = "[''setperm'', ''0x3000'', ''set'', ''W'']"
  have w: "pgdir_walk ex_kern (mem ex_state) (strtol (?argv ! 1)) = None"
    by (simp add: strtol_3000 ex_walk_3000)
  have f: "mon_setperm ex_kern ?argv None ex_state = Fault NullDeref (cprintf ''Before: '' [] ex_state)"
    by (rule mon_setperm_null [OF _ w]) simp
  have l: "length (tokens ''setperm 0x3000 set W'') < MAXARGS"
    by (simp add: tokens_setperm MAXARGS_def)
  have c: "lookup_cmd (commands ex_kern) ''setperm'' =
             Some \<lparr>name = ''setperm'', desc = ''Set the permission bits of an addresses'',
                   func = mon_setperm ex_kern\<rparr>"
    by (simp add: commands_def)
  have r: "runcmd (commands ex_kern) ''setperm 0x3000 set W'' None ex_state =
             mon_setperm ex_kern ?argv None ex_state"
    using runcmd_found [OF tokens_setperm l c, of None ex_state] by (simp add: tokens_setperm)
  show ?thesis using w f r showmappings_3000 by simp
qed

text \<open>
  C3. The claim asks that a physical dump reads the word for offset \<open>i\<close> at the
  fixed-offset translation of base plus \<open>i\<close>. The code applies \<open>PTE_ADDR\<close> to the
  base first: \<open>showmem Physical 0x1004 4\<close> prints, under the label \<open>0x1004\<close>, the
  word \<open>0xAA\<close> stored at \<open>KERNBASE + 0x1000\<close>, while the word at
  \<open>KERNBASE + 0x1004\<close> is \<open>0xBB\<close>.
\<close>

theorem showmem_physical_unaligned:
  "mon_showmem ex_kern [''showmem'', ''Physical'', ''0x1004'', ''4''] None ex_state =
     Returns 0 (cprintf ''%s Memory at %08x is %08x\<newline>''
                  [Str ''Physical'', Num 0x1004, Num 0xAA] ex_state) \<and>
   read32 (mem ex_state) (0x1004 + KERNBASE) = 0xBB \<and>
   read32 (mem ex_state) (0x1000 + KERNBASE) = 0xAA"
proof -
  have k: "KADDR ex_kern (PTE_ADDR 0x1004) = Some 0xF0001000"
    by (simp add: KADDR_def PTE_ADDR_def PGNUM_def KERNBASE_def ex_kern_def)
  have m: "read32 (mem ex_state) 0xF0001000 = 0xAA" "read32 (mem ex_state) 0xF0001004 = 0xBB"
    by (simp_all add: ex_state_def read32_def)
  have a: "add_long 0x1004 0 = Some 0x1004" "add_long 0xF0001000 0 = Some 0xF0001000"
    "add_long 0 4 = Some 4"
    by (simp_all add: add_long_def)
  have "mon_showmem ex_kern [''showmem'', ''Physical'', ''0x1004'', ''4''] None ex_state =
          showmem_loop ''Physical'' 0x1004 0xF0001000 4 0 ex_state"
    by (simp add: mon_showmem_def argc_of_def strtol_1004 strtol_4 first_char_def k)
  also have "\<dots> = showmem_loop ''Physical'' 0x1004 0xF0001000 4 4
                     (cprintf ''%s Memory at %08x is %08x\<newline>''
                        [Str ''Physical'', Num 0x1004, Num 0xAA] ex_state)"
    by (subst showmem_loop.simps) (simp add: a m word_sless_alt)
  also have "\<dots> = Returns 0 (cprintf ''%s Memory at %08x is %08x\<newline>''
                        [Str ''Physical'', Num 0x1004, Num 0xAA] ex_state)"
    by (subst showmem_loop.simps) (simp add: word_sless_alt)
  finally show ?thesis using m by (simp add: KERNBASE_def)
qed

text \<open>
  Below the last page under \<open>0x80000000\<close> the normalisation does what the range
  query needs: for arguments that are, as \<open>long\<close>, less than \<open>0x7ffff000\<close>, the
  bounds are ordered, page-aligned and at least one page apart.
\<close>

lemma signed_take_bit_31:
  assumes "0 \<le> k" and "k < 2^32"
  shows "signed_take_bit 31 (k::int) = (if k < 2^31 then k else k - 2^32)"
proof (cases "k < 2^31")
  case True
  with assms have "(k + 2^31) mod 2^32 = k + 2^31"
    by (intro mod_pos_pos_trivial) simp_all
  with True show ?thesis
    by (simp add: signed_take_bit_eq_take_bit_shift take_bit_eq_mod)
next
  case False
  with assms have "(k - 2^31) mod 2^32 = k - 2^31"
    by (intro mod_pos_pos_trivial) simp_all
  moreover have "k + 2^31 = k - 2^31 + 2^32" by simp
  then have "(k + 2^31) mod 2^32 = (k - 2^31 + 2^32) mod 2^32" by (rule arg_cong)
  moreover have "(k - 2^31 + 2^32) mod 2^32 = (k - 2^31) mod (2^32 :: int)"
    by (rule mod_add_self2)
  ultimately have "(k + 2^31) mod 2^32 = k - 2^31" by simp
  with False show ?thesis
    by (simp add: signed_take_bit_eq_take_bit_shift take_bit_eq_mod)
qed


lemma sint32: "sint (w::32 word) = (if uint w < 2^31 then uint w else uint w - 2^32)"
  using uint_lt2p [of w] by (simp add: sint_uint signed_take_bit_31)

lemma uint_ROUNDDOWN: "uint (ROUNDDOWN a 4096) = uint a - uint a mod 4096"
proof -
  have "uint (a mod 4096) \<le> uint a"
    by (simp add: uint_mod_distrib zmod_le_nonneg_dividend)
  then show ?thesis
    by (simp add: ROUNDDOWN_def uint_sub_if' uint_mod_distrib)
qed


lemma sint_ROUNDDOWN: "sint (ROUNDDOWN a 4096) = 4096 * (sint a div 4096)"
proof -
  let ?u = "uint a"
  have b: "0 \<le> ?u" "?u < 2^32" using uint_lt2p [of a] by simp_all
  have r: "uint (ROUNDDOWN a 4096) = 4096 * (?u div 4096)"
    by (simp add: uint_ROUNDDOWN minus_mod_eq_mult_div)
  have le: "4096 * (?u div 4096) \<le> ?u"
    using r uint_ROUNDDOWN [of a] pos_mod_sign [of 4096 ?u] by simp
  show ?thesis
  proof (cases "?u < 2^31")
    case True
    with le have "4096 * (?u div 4096) < 2^31" by simp
    with True show ?thesis by (simp add: sint32 r)
  next
    case False
    then have "2^31 div 4096 \<le> ?u div 4096" by (intro zdiv_mono1) simp_all
    then have ge: "\<not> 4096 * (?u div 4096) < 2^31" by simp
    have "?u - 2^32 = ?u + (- 1048576) * 4096" by simp
    then have "(?u - 2^32) div 4096 = (?u + (- 1048576) * 4096) div 4096" by (rule arg_cong)
    also have "\<dots> = (- 1048576) + ?u div 4096" by (rule div_mult_self1) simp
    finally have "(?u - 2^32) div 4096 = ?u div 4096 - 1048576" by simp
    with False ge show ?thesis by (simp add: sint32 r)
  qed
qed


lemma sint_ROUNDUP:
  assumes "sint a \<le> 0x7ffff000"
  shows "sint (ROUNDUP a 4096) = 4096 * ((sint a + 4095) div 4096)"
proof -
  have r: "ROUNDUP a 4096 = ROUNDDOWN (a + 4095) 4096"
    by (simp add: ROUNDUP_def add.commute)
  have "sint (a + 4095) = signed_take_bit 31 (sint a + 4095)"
    by (simp add: sint_word_ariths)
  also have "\<dots> = sint a + 4095"
    using assms sint_ge [of a] by (intro signed_take_bit_int_eq_self) simp_all
  finally have s: "sint (a + 4095) = sint a + 4095" .
  show ?thesis unfolding r sint_ROUNDDOWN s ..
qed

lemma ROUNDDOWN_aligned: "ROUNDDOWN a 4096 mod 4096 = 0"
proof -
  have "uint (ROUNDDOWN a 4096 mod 4096) = 0"
    by (simp add: uint_mod_distrib uint_ROUNDDOWN minus_mod_eq_mult_div)
  then show ?thesis by (simp add: word_uint_eq_iff)
qed


lemma aligned_add_page:
  assumes "e mod 4096 = (0 :: u32)"
  shows "(e + 4096) mod 4096 = 0"
proof -
  from assms have "uint (e mod 4096) = 0" by simp
  then have e: "uint e mod 4096 = 0" by (simp add: uint_mod_distrib)
  have d: "(4096 :: int) dvd 2^32" by simp
  have "uint ((e + 4096) mod 4096) = (uint e + 4096) mod 2^32 mod 4096"
    by (simp add: uint_mod_distrib uint_word_ariths take_bit_eq_mod)
  also have "\<dots> = (uint e + 4096) mod 4096" using d by (rule mod_mod_cancel)
  also have "\<dots> = 0" using e by simp
  finally show ?thesis by (simp add: word_uint_eq_iff)
qed

lemma round_bounds:
  fixes x y :: int
  assumes "x \<le> y"
  shows "4096 * (x div 4096) \<le> x" and "y \<le> 4096 * ((y + 4095) div 4096)"
    and "4096 * (x div 4096) \<le> 4096 * ((y + 4095) div 4096)"
    and "x div 4096 \<noteq> (y + 4095) div 4096 \<Longrightarrow>
         4096 \<le> 4096 * ((y + 4095) div 4096) - 4096 * (x div 4096)"
proof -
  have m: "0 \<le> x mod 4096" by simp
  have e: "x = 4096 * (x div 4096) + x mod 4096" by simp
  show "4096 * (x div 4096) \<le> x" using m e by linarith
  have m': "(y + 4095) mod 4096 < 4096" by simp
  have e': "y + 4095 = 4096 * ((y + 4095) div 4096) + (y + 4095) mod 4096" by simp
  show "y \<le> 4096 * ((y + 4095) div 4096)" using m' e' by linarith
  have le: "x div 4096 \<le> (y + 4095) div 4096"
    using assms by (intro zdiv_mono1) simp_all
  then show "4096 * (x div 4096) \<le> 4096 * ((y + 4095) div 4096)" by simp
  show "4096 \<le> 4096 * ((y + 4095) div 4096) - 4096 * (x div 4096)"
    if "x div 4096 \<noteq> (y + 4095) div 4096"
    using le that by simp
qed


lemma normalise_ok:
  fixes lo hi :: long
  assumes "sint lo \<le> sint hi" and "sint hi < 0x7ffff000"
  shows "\<exists>b e.
     (if ROUNDDOWN lo PGSIZE = ROUNDUP hi PGSIZE
      then (case add_long (ROUNDUP hi PGSIZE) PGSIZE of
              None \<Rightarrow> None | Some e4 \<Rightarrow> Some (ROUNDDOWN lo PGSIZE, e4))
      else Some (ROUNDDOWN lo PGSIZE, ROUNDUP hi PGSIZE)) = Some (b, e) \<and>
     b <s e \<and> b mod PGSIZE = 0 \<and> e mod PGSIZE = 0 \<and> 4096 \<le> sint e - sint b \<and>
     sint b \<le> sint lo \<and> sint hi \<le> sint e"
proof -
  let ?b = "ROUNDDOWN lo 4096" and ?e = "ROUNDUP hi 4096"
  let ?p = "sint lo div 4096" and ?q = "(sint hi + 4095) div 4096"
  have sb: "sint ?b = 4096 * ?p" by (rule sint_ROUNDDOWN)
  have se: "sint ?e = 4096 * ?q" using assms(2) by (intro sint_ROUNDUP) simp
  have ab: "?b mod 4096 = 0" by (rule ROUNDDOWN_aligned)
  have ae: "?e mod 4096 = 0" unfolding ROUNDUP_def by (rule ROUNDDOWN_aligned)
  note rb = round_bounds [OF assms(1)]
  have lo: "sint ?b \<le> sint lo" using rb(1) sb by simp
  have hi: "sint hi \<le> sint ?e" using rb(2) se by simp
  show ?thesis
  proof (cases "?b = ?e")
    case True
    then have eq: "sint ?e = sint ?b" by simp
    have lt: "sint ?e + 4096 < 2^31" using assms lo eq by simp
    have ge: "- (2^31) \<le> sint ?e + 4096" using sint_ge [of ?e] by simp
    have a: "add_long ?e 4096 = Some (?e + 4096)"
      using lt ge by (simp add: add_long_def)
    have "sint (?e + 4096) = signed_take_bit 31 (sint ?e + 4096)"
      by (simp add: sint_word_ariths)
    also have "\<dots> = sint ?e + 4096"
      using lt ge by (intro signed_take_bit_int_eq_self) simp_all
    finally have s4: "sint (?e + 4096) = sint ?e + 4096" .
    have al: "(?e + 4096) mod 4096 = 0" by (rule aligned_add_page [OF ae])
    have c: "(if ?b = ?e
              then (case add_long ?e 4096 of None \<Rightarrow> None | Some e4 \<Rightarrow> Some (?b, e4))
              else Some (?b, ?e)) = Some (?b, ?e + 4096)"
      using True a by simp
    have f: "?b <s ?e + 4096" "4096 \<le> sint (?e + 4096) - sint ?b"
      "sint hi \<le> sint (?e + 4096)"
      using s4 eq hi by (simp_all add: word_sless_alt)
    show ?thesis
      unfolding PGSIZE_def
    proof (intro exI conjI)
      show "(if ?b = ?e
              then (case add_long ?e 4096 of None \<Rightarrow> None | Some e4 \<Rightarrow> Some (?b, e4))
              else Some (?b, ?e)) = Some (?b, ?e + 4096)" by (fact c)
    qed (fact f ab al lo)+
  next
    case False
    then have "sint ?b \<noteq> sint ?e" by (auto dest: signed_word_eqI)
    then have ne: "?p \<noteq> ?q" using sb se by simp
    have d: "4096 \<le> sint ?e - sint ?b" using rb(4) [OF ne] sb se by simp
    then have l: "?b <s ?e" by (simp add: word_sless_alt)
    have c: "(if ?b = ?e
              then (case add_long ?e 4096 of None \<Rightarrow> None | Some e4 \<Rightarrow> Some (?b, e4))
              else Some (?b, ?e)) = Some (?b, ?e)"
      using False by simp
    show ?thesis
      unfolding PGSIZE_def
    proof (intro exI conjI)
      show "(if ?b = ?e
              then (case add_long ?e 4096 of None \<Rightarrow> None | Some e4 \<Rightarrow> Some (?b, e4))
              else Some (?b, ?e)) = Some (?b, ?e)" by (fact c)
    qed (fact l ab ae d lo hi)+
  qed
qed

lemma no_clamp: "\<not> (0xffffffff :: long) < x"
proof -
  have "uint x < 2^32" using uint_lt2p [of x] by simp
  then show ?thesis by (simp add: word_less_def)
qed

lemma showmappings_range_below_top:
  assumes "length argv = 2 \<or> length argv = 3"
    and "sint (strtol (argv ! 1)) < 0x7ffff000"
    and "length argv = 3 \<longrightarrow> sint (strtol (argv ! 2)) < 0x7ffff000"
  shows "\<exists>b e. showmappings_range argv = Some (b, e) \<and>
           b <s e \<and> b mod PGSIZE = 0 \<and> e mod PGSIZE = 0 \<and> 4096 \<le> sint e - sint b"
proof -
  let ?a = "strtol (argv ! 1)"
  let ?c = "if argc_of argv = 3 then strtol (argv ! 2) else ?a"
  let ?lo = "if ?c <s ?a then ?c else ?a" and ?hi = "if ?c <s ?a then ?a else ?c"
  have c: "sint ?c < 0x7ffff000" using assms by (simp add: argc_of_def)
  have o: "sint ?lo \<le> sint ?hi" by (simp add: word_sless_alt)
  have h: "sint ?hi < 0x7ffff000" using c assms(2) by simp
  let ?R = "if ROUNDDOWN ?lo PGSIZE = ROUNDUP ?hi PGSIZE
      then (case add_long (ROUNDUP ?hi PGSIZE) PGSIZE of
              None \<Rightarrow> None | Some e4 \<Rightarrow> Some (ROUNDDOWN ?lo PGSIZE, e4))
      else Some (ROUNDDOWN ?lo PGSIZE, ROUNDUP ?hi PGSIZE)"
  have r: "showmappings_range argv = ?R"
    by (simp add: showmappings_range_def Let_def no_clamp del: One_nat_def)
  from normalise_ok [OF o h] obtain b e
    where "?R = Some (b, e)" and p: "b <s e" "b mod PGSIZE = 0" "e mod PGSIZE = 0"
      "4096 \<le> sint e - sint b"
    by (elim exE conjE) (rule that)
  then have "showmappings_range argv = Some (b, e)" by (simp only: r)
  with p show ?thesis by (intro exI conjI)
qed

text \<open>
  C4. The claim asks for a normalised range with \<open>begin \<le> end\<close> and at least one
  page. For \<open>showmappings 0x7fffffff\<close> the code rounds \<open>end\<close> up to
  \<open>0x80000000\<close>, the least \<open>long\<close>, so that \<open>begin\<close> is above \<open>end\<close> in the
  signed order of the code and no page is reported. Read as unsigned addresses the
  bounds are out of order for \<open>showmappings -1\<close>.
\<close>

theorem showmappings_range_not_ordered:
  "showmappings_range [''showmappings'', ''0x7fffffff''] = Some (0x7ffff000, 0x80000000) \<and>
   \<not> (0x7ffff000 :: long) \<le>s 0x80000000 \<and>
   mon_showmappings ex_kern [''showmappings'', ''0x7fffffff''] None ex_state =
     Returns 0 ex_state \<and>
   showmappings_range [''showmappings'', ''-1''] = Some (0xfffff000, 0) \<and>
   \<not> (0xfffff000 :: long) \<le> 0"
proof -
  have r: "showmappings_range [''showmappings'', ''0x7fffffff''] = Some (0x7ffff000, 0x80000000)"
    by (simp add: showmappings_range_def argc_of_def strtol_max ROUNDDOWN_def ROUNDUP_def
        PGSIZE_def add_long_def Let_def)
  have r': "showmappings_range [''showmappings'', ''-1''] = Some (0xfffff000, 0)"
    by (simp add: showmappings_range_def argc_of_def strtol_m1 ROUNDDOWN_def ROUNDUP_def
        PGSIZE_def add_long_def Let_def)
  have s: "\<not> (0x7ffff000 :: long) <s 0x80000000" "\<not> (0x7ffff000 :: long) \<le>s 0x80000000"
    by (simp_all add: word_sless_alt word_sle_eq)
  have "mon_showmappings ex_kern [''showmappings'', ''0x7fffffff''] None ex_state =
          showmappings_loop ex_kern 0x7ffff000 0x80000000 ex_state"
    by (simp add: mon_showmappings_def argc_of_def r)
  also have "\<dots> = Returns 0 ex_state"
    using s by (subst showmappings_loop.simps) simp
  finally show ?thesis using r r' s by simp
qed

end
